theory Spec2Isabelle
  imports Main "HOL-Library.Word"
begin

unbundle bit_operations_syntax

section \<open>Machine types, time and memory\<close>

text \<open>
  The driver is C on a 64-bit little-endian host. Fixed-width integers are words,
  pointers are addresses (\<open>0\<close> is \<open>NULL\<close>), and the heap is a map from byte addresses
  to bytes, so that stores through one pointer are seen by loads through another.
\<close>

type_synonym u8 = "8 word"
type_synonym u16 = "16 word"
type_synonym u32 = "32 word"
type_synonym u64 = "64 word"
type_synonym ptr = nat
type_synonym heap = "nat \<Rightarrow> u8"

datatype fault = Assert_failed | Div_by_zero | Bad_pointer

record timeval =
  tv_sec :: int
  tv_usec :: int

text \<open>The \<open>timeradd\<close>, \<open>timersub\<close> and \<open>timercmp(a, b, >)\<close> macros of \<open>sys/time.h\<close>.\<close>

definition timeradd :: "timeval \<Rightarrow> timeval \<Rightarrow> timeval" where
  "timeradd a b =
     (let s = tv_sec a + tv_sec b; u = tv_usec a + tv_usec b
      in if u \<ge> 1000000 then \<lparr>tv_sec = s + 1, tv_usec = u - 1000000\<rparr>
         else \<lparr>tv_sec = s, tv_usec = u\<rparr>)"

definition timersub :: "timeval \<Rightarrow> timeval \<Rightarrow> timeval" where
  "timersub a b =
     (let s = tv_sec a - tv_sec b; u = tv_usec a - tv_usec b
      in if u < 0 then \<lparr>tv_sec = s - 1, tv_usec = u + 1000000\<rparr>
         else \<lparr>tv_sec = s, tv_usec = u\<rparr>)"

definition timercmp_gt :: "timeval \<Rightarrow> timeval \<Rightarrow> bool" where
  "timercmp_gt a b =
     (if tv_sec a = tv_sec b then tv_usec a > tv_usec b else tv_sec a > tv_sec b)"

definition US_PER_S :: nat where
  "US_PER_S = 1000 * 1000"

text \<open>
  \<open>timeval_to_us\<close> computes in \<open>unsigned long long\<close> and returns \<open>unsigned int\<close>:
  the value is reduced modulo \<open>2 ^ 32\<close>.
\<close>

definition timeval_to_us :: "timeval \<Rightarrow> u32" where
  "timeval_to_us t = word_of_int (tv_sec t * int US_PER_S + tv_usec t)"

definition timeradd_second :: "timeval \<Rightarrow> u32 \<Rightarrow> timeval" where
  "timeradd_second now secs = timeradd now \<lparr>tv_sec = uint secs, tv_usec = 0\<rparr>"

subsection \<open>Byte-addressed memory\<close>

fun le_bytes :: "nat \<Rightarrow> 'a::len word \<Rightarrow> u8 list" where
  "le_bytes 0 v = []"
| "le_bytes (Suc n) v = ucast v # le_bytes n (drop_bit 8 v)"

fun le_word :: "u8 list \<Rightarrow> 'a::len word" where
  "le_word [] = 0"
| "le_word (b # bs) = ucast b OR push_bit 8 (le_word bs)"

definition store_bytes :: "heap \<Rightarrow> ptr \<Rightarrow> u8 list \<Rightarrow> heap" where
  "store_bytes h p bs = (\<lambda>a. if p \<le> a \<and> a < p + length bs then bs ! (a - p) else h a)"

definition load_bytes :: "heap \<Rightarrow> ptr \<Rightarrow> nat \<Rightarrow> u8 list" where
  "load_bytes h p n = map (\<lambda>k. h (p + k)) [0..<n]"

definition store64 :: "heap \<Rightarrow> ptr \<Rightarrow> u64 \<Rightarrow> heap" where
  "store64 h p v = store_bytes h p (le_bytes 8 v)"

definition load64 :: "heap \<Rightarrow> ptr \<Rightarrow> u64" where
  "load64 h p = le_word (load_bytes h p 8)"

definition store32 :: "heap \<Rightarrow> ptr \<Rightarrow> u32 \<Rightarrow> heap" where
  "store32 h p v = store_bytes h p (le_bytes 4 v)"

definition load32 :: "heap \<Rightarrow> ptr \<Rightarrow> u32" where
  "load32 h p = le_word (load_bytes h p 4)"

section \<open>NVMe command and completion images\<close>

text \<open>
  The fields of \<open>struct spdk_nvme_cmd\<close> and \<open>struct spdk_nvme_cpl\<close> that the driver
  touches. Dword 2 of the completion (\<open>sqhd\<close> and \<open>sqid\<close>) is one 32-bit field, as the
  driver writes it through \<open>(&cpl.cdw0)[2]\<close>. The status is the bit-field
  \<open>p:1, sc:8, sct:3, rsvd2:2, m:1, dnr:1\<close> (\<open>p\<close> and \<open>m\<close> are named
  \<open>p_tag\<close> and \<open>m_more\<close> here); \<open>status_raw\<close> is its 16-bit image, the
  value of \<open>*(unsigned short* )&cpl->status\<close>.
\<close>

record spdk_nvme_cmd =
  opc :: u8
  nsid :: u32
  cdw10 :: u32
  cdw11 :: u32
  cdw12 :: u32
  cdw13 :: u32
  cdw14 :: u32
  cdw15 :: u32

record spdk_nvme_status =
  p_tag :: bool
  sc :: u8
  sct :: "3 word"
  rsvd2 :: "2 word"
  m_more :: bool
  dnr :: bool

record spdk_nvme_cpl =
  cdw0 :: u32
  rsvd1 :: u32
  cdw2 :: u32
  cid :: u16
  status :: spdk_nvme_status

definition status_raw :: "spdk_nvme_status \<Rightarrow> u16" where
  "status_raw s =
     of_bool (p_tag s) OR push_bit 1 (ucast (sc s)) OR push_bit 9 (ucast (sct s))
       OR push_bit 12 (ucast (rsvd2 s)) OR push_bit 14 (of_bool (m_more s))
       OR push_bit 15 (of_bool (dnr s))"

definition spdk_nvme_cpl_is_error :: "spdk_nvme_cpl \<Rightarrow> bool" where
  "spdk_nvme_cpl_is_error c = (sc (status c) \<noteq> 0 \<or> sct (status c) \<noteq> 0)"

definition cmd_zero :: spdk_nvme_cmd where
  "cmd_zero = \<lparr>opc = 0, nsid = 0, cdw10 = 0, cdw11 = 0, cdw12 = 0, cdw13 = 0,
     cdw14 = 0, cdw15 = 0\<rparr>"

section \<open>Command log entries and the process state\<close>

text \<open>
  A callback is a function pointer: the worker's own \<open>ioworker_one_cb\<close> or a function
  of the scripting layer, identified by a number. A pointer to a log entry is the pair
  of its queue id and its index in that queue's ring.
\<close>

datatype cb_fn = Ioworker_one_cb | User_cb nat

type_synonym entry_ptr = "nat \<times> nat"

record cmd_log_entry_t =
  time_cmd :: timeval
  cmd :: spdk_nvme_cmd
  time_cpl :: timeval
  cpl :: spdk_nvme_cpl
  log_buf :: ptr
  log_lba :: u64
  log_lba_count :: u16
  log_lba_size :: u32
  log_cb_fn :: "cb_fn option"
  log_cb_arg :: nat

record cmd_log_table_t =
  table :: "nat \<Rightarrow> cmd_log_entry_t"
  tail_index :: u32

definition CMD_LOG_DEPTH :: nat where
  "CMD_LOG_DEPTH = 2048"

definition CMD_LOG_MAX_Q :: nat where
  "CMD_LOG_MAX_Q = 32"

record ioworker_status =
  sts_io_count_sent :: u64
  sts_io_count_cplt :: u64

text \<open>One call of the external driver's raw I/O or admin submission, with the memory
  and the checksum table as they are when the call is made.\<close>

record driver_call =
  call_admin :: bool
  call_cmd :: spdk_nvme_cmd
  call_buf :: ptr
  call_len :: nat
  call_ctx :: entry_ptr
  call_mem :: heap
  call_csum_table :: "nat \<Rightarrow> u32"

text \<open>
  A completion that the external driver delivers while it is polled: the context pointer
  and the completion it passes to the registered callback, and the data the device has
  written to memory before (none for a write).
\<close>

record completion =
  done_ctx :: entry_ptr
  done_cpl :: spdk_nvme_cpl
  done_addr :: ptr
  done_data :: "u8 list"

text \<open>
  The process state: the globals of the driver, the heap, and what the driver takes from
  outside, each as a sequence read by position: the clock (\<open>gettimeofday\<close>),
  \<open>random()\<close>, the return code of each submission, the address returned by each DMA
  allocation, the completions found by each poll of the queue pair, and the library
  routine \<open>spdk_crc32c_update(ptr, len, 0)\<close> as a function of the bytes it reads.
\<close>

record world =
  mem :: heap
  g_driver_table_size :: u64
  io_token :: u64
  csum_table :: "nat \<Rightarrow> u32"
  cmd_log_queue_table :: "nat \<Rightarrow> cmd_log_table_t option"
  g_ioworker_status_table :: "nat \<Rightarrow> ioworker_status"
  spdk_crc32c :: "u8 list \<Rightarrow> u32"
  clock :: "nat \<Rightarrow> timeval"
  clock_reads :: nat
  random_seq :: "nat \<Rightarrow> nat"
  random_reads :: nat
  submit_rc :: "nat \<Rightarrow> int"
  driver_calls :: "driver_call list"
  dma_addr :: "nat \<Rightarrow> ptr"
  dma_allocs :: nat
  polls :: "nat \<Rightarrow> completion list"
  poll_count :: nat

definition gettimeofday :: "world \<Rightarrow> timeval \<times> world" where
  "gettimeofday w = (clock w (clock_reads w), w\<lparr>clock_reads := clock_reads w + 1\<rparr>)"

definition random :: "world \<Rightarrow> nat \<times> world" where
  "random w = (random_seq w (random_reads w), w\<lparr>random_reads := random_reads w + 1\<rparr>)"

definition spdk_nvme_ctrlr_cmd_raw ::
    "bool \<Rightarrow> spdk_nvme_cmd \<Rightarrow> ptr \<Rightarrow> nat \<Rightarrow> entry_ptr \<Rightarrow> world \<Rightarrow> int \<times> world" where
  "spdk_nvme_ctrlr_cmd_raw admin c buf len log_entry w =
     (submit_rc w (length (driver_calls w)),
      w\<lparr>driver_calls := driver_calls w @
          [\<lparr>call_admin = admin, call_cmd = c, call_buf = buf, call_len = len,
            call_ctx = log_entry, call_mem = mem w, call_csum_table = csum_table w\<rparr>]\<rparr>)"

section \<open>Checksum table and buffers\<close>

text \<open>
  \<open>crc32_clear\<close>: \<open>memset\<close> of \<open>lba_count * 4\<close> bytes (the whole table when sanitizing)
  from slot \<open>lba\<close>, with byte \<open>0xff\<close> or \<open>0\<close>.
\<close>

definition crc32_clear :: "u64 \<Rightarrow> u64 \<Rightarrow> bool \<Rightarrow> bool \<Rightarrow> world \<Rightarrow> fault + world" where
  "crc32_clear lba lba_count sanitize uncorr w =
     (let c = (if uncorr then 0xffffffff else 0 :: u32);
          len = lba_count * 4
      in if sanitize \<and> (lba \<noteq> 0 \<or> g_driver_table_size w = 0) then Inl Assert_failed
         else
           (let len = (if sanitize then g_driver_table_size w else len)
            in Inr (w\<lparr>csum_table := (\<lambda>k. if unat lba \<le> k \<and> 4 * (k - unat lba) < unat len
                                         then c else csum_table w k)\<rparr>)))"

definition buffer_calc_csum :: "(u8 list \<Rightarrow> u32) \<Rightarrow> heap \<Rightarrow> ptr \<Rightarrow> nat \<Rightarrow> u32" where
  "buffer_calc_csum crc32c h ptr len =
     (let crc = crc32c (load_bytes h ptr len);
          crc = (if crc = 0 then 1 else crc);
          crc = (if crc = 0xffffffff then 0xfffffffe else crc)
      in crc)"

text \<open>
  The loop of \<open>buffer_fill_data\<close>. The counter \<open>i\<close> is a \<open>uint32_t\<close> below \<open>lba_count\<close>,
  the offset \<open>i * lba_size\<close> is computed in 32 bits, the index of the last 64-bit word
  \<open>lba_size / 8 - 1\<close> in \<open>size_t\<close>, and \<open>lba\<close> is incremented with every block.
\<close>

function buffer_fill_loop ::
    "(u8 list \<Rightarrow> u32) \<Rightarrow> ptr \<Rightarrow> u64 \<Rightarrow> nat \<Rightarrow> nat \<Rightarrow> nat \<Rightarrow> u64 \<Rightarrow>
     heap \<times> (nat \<Rightarrow> u32) \<Rightarrow> heap \<times> (nat \<Rightarrow> u32)" where
  "buffer_fill_loop crc32c buf token lba_count lba_size i lba (h, t) =
     (if i < lba_count then
        (let ptr = buf + (i * lba_size) mod 2 ^ 32;
             h1 = store64 h ptr lba;
             h2 = store64 h1 (ptr + 8 * ((lba_size div 8 + 2 ^ 64 - 1) mod 2 ^ 64))
                    (token + of_nat i);
             t1 = t(unat lba := buffer_calc_csum crc32c h2 ptr lba_size)
         in buffer_fill_loop crc32c buf token lba_count lba_size (i + 1) (lba + 1) (h2, t1))
      else (h, t))"
  by pat_completeness auto
termination
  by (relation "measure (\<lambda>(crc32c, buf, token, lba_count, lba_size, i, lba, s). lba_count - i)")
    auto

declare buffer_fill_loop.simps [simp del]

text \<open>\<open>__atomic_fetch_add(g_driver_io_token_ptr, n, __ATOMIC_SEQ_CST)\<close>: one indivisible
  step that returns the old value of the shared counter.\<close>

definition atomic_fetch_add_io_token :: "u64 \<Rightarrow> world \<Rightarrow> u64 \<times> world" where
  "atomic_fetch_add_io_token n w = (io_token w, w\<lparr>io_token := io_token w + n\<rparr>)"

definition buffer_fill_data :: "ptr \<Rightarrow> u64 \<Rightarrow> u32 \<Rightarrow> u32 \<Rightarrow> world \<Rightarrow> world" where
  "buffer_fill_data buf lba lba_count lba_size w =
     (let (token, w1) = atomic_fetch_add_io_token (ucast lba_count) w;
          (h, t) = buffer_fill_loop (spdk_crc32c w1) buf token (unat lba_count) (unat lba_size)
                     0 lba (mem w1, csum_table w1)
      in w1\<lparr>mem := h, csum_table := t\<rparr>)"

function buffer_verify_loop ::
    "(u8 list \<Rightarrow> u32) \<Rightarrow> heap \<Rightarrow> (nat \<Rightarrow> u32) \<Rightarrow> ptr \<Rightarrow> nat \<Rightarrow> nat \<Rightarrow> nat \<Rightarrow> u64 \<Rightarrow> int" where
  "buffer_verify_loop crc32c h t buf lba_count lba_size i lba =
     (if i < lba_count then
        (let expected_crc = t (unat lba)
         in if expected_crc = 0 then
              buffer_verify_loop crc32c h t buf lba_count lba_size (i + 1) (lba + 1)
            else if expected_crc = 0xffffffff then - 1
            else
              (let ptr = buf + (i * lba_size) mod 2 ^ 32
               in if lba \<noteq> load64 h ptr then - 2
                  else if buffer_calc_csum crc32c h ptr lba_size \<noteq> expected_crc then - 3
                  else buffer_verify_loop crc32c h t buf lba_count lba_size (i + 1) (lba + 1)))
      else 0)"
  by pat_completeness auto
termination
  by (relation "measure (\<lambda>(crc32c, h, t, buf, lba_count, lba_size, i, lba). lba_count - i)")
    auto

declare buffer_verify_loop.simps [simp del]

definition buffer_verify_data ::
    "(u8 list \<Rightarrow> u32) \<Rightarrow> heap \<Rightarrow> (nat \<Rightarrow> u32) \<Rightarrow> ptr \<Rightarrow> u64 \<Rightarrow> u32 \<Rightarrow> u32 \<Rightarrow> int" where
  "buffer_verify_data crc32c h t buf lba lba_count lba_size =
     buffer_verify_loop crc32c h t buf (unat lba_count) (unat lba_size) 0 lba"

section \<open>Command log\<close>

text \<open>
  \<open>cmd_log_add_cmd\<close> claims the slot at the tail of the queue's ring. A queue without
  a table, a queue id or a tail index out of range stop the program (the assertions are
  compiled in: the source insists on \<open>DEBUG\<close>).
\<close>

definition cmd_log_add_cmd ::
    "u16 \<Rightarrow> ptr \<Rightarrow> u64 \<Rightarrow> u16 \<Rightarrow> u32 \<Rightarrow> spdk_nvme_cmd \<Rightarrow> cb_fn option \<Rightarrow> nat \<Rightarrow> world \<Rightarrow>
     fault + (entry_ptr \<times> world)" where
  "cmd_log_add_cmd qid buf lba lba_count lba_size c cb cb_arg w =
     (case (if unat qid < CMD_LOG_MAX_Q then cmd_log_queue_table w (unat qid) else None) of
        None \<Rightarrow> Inl Assert_failed
      | Some log_table \<Rightarrow>
          (let tail = tail_index log_table
           in if \<not> unat tail < CMD_LOG_DEPTH then Inl Assert_failed
              else
                (let (now, w1) = gettimeofday w;
                     log_entry = (table log_table (unat tail))
                       \<lparr>log_buf := buf, log_lba := lba, log_lba_count := lba_count,
                        log_lba_size := lba_size, log_cb_fn := cb, log_cb_arg := cb_arg,
                        cmd := c, time_cmd := now\<rparr>;
                     tail1 = tail + 1;
                     tail2 = (if unat tail1 = CMD_LOG_DEPTH then 0 else tail1)
                 in Inr ((unat qid, unat tail),
                      w1\<lparr>cmd_log_queue_table := (cmd_log_queue_table w1)
                           (unat qid \<mapsto> \<lparr>table = (table log_table)(unat tail := log_entry),
                                          tail_index = tail2\<rparr>)\<rparr>))))"

text \<open>
  The completion trampoline \<open>cmd_log_add_cpl_cb\<close>, first on the entry it is given:
  \<open>now\<close> is the time of completion, \<open>h\<close> and \<open>t\<close> are the heap and the checksum table.
\<close>

definition cmd_log_entry_complete ::
    "(u8 list \<Rightarrow> u32) \<Rightarrow> heap \<Rightarrow> (nat \<Rightarrow> u32) \<Rightarrow> timeval \<Rightarrow> spdk_nvme_cpl \<Rightarrow>
     cmd_log_entry_t \<Rightarrow> fault + cmd_log_entry_t" where
  "cmd_log_entry_complete crc32c h t now c log_entry =
     (let e1 = log_entry\<lparr>time_cpl := now\<rparr>;
          e2 = e1\<lparr>cpl := c\<rparr>;
          diff = timersub (time_cpl e2) (time_cmd e2);
          e3 = e2\<lparr>cpl := (cpl e2)\<lparr>cdw2 := timeval_to_us diff\<rparr>\<rparr>
      in if opc (cmd e3) = 2 \<and> log_buf e3 \<noteq> 0 then
           (if log_lba_count e3 = 0 \<or> log_lba_size e3 = 0 \<or> log_lba_size e3 \<noteq> 512
            then Inl Assert_failed
            else
              (let ret = buffer_verify_data crc32c h t (log_buf e3) (log_lba e3)
                           (ucast (log_lba_count e3)) (log_lba_size e3)
               in if ret \<noteq> 0 then
                    Inr (e3\<lparr>cpl := (cpl e3)\<lparr>status := (status (cpl e3))\<lparr>sct := 0x02, sc := 0x81\<rparr>\<rparr>\<rparr>)
                  else Inr e3))
         else Inr e3)"

text \<open>
  On the process state: the entry is updated in its ring, and the result names the
  callback to run next with its argument and the stored completion (none when
  \<open>cb_fn\<close> is \<open>NULL\<close>).
\<close>

type_synonym cb_call = "cb_fn \<times> nat \<times> spdk_nvme_cpl"

definition cmd_log_add_cpl_cb ::
    "entry_ptr \<Rightarrow> spdk_nvme_cpl \<Rightarrow> world \<Rightarrow> fault + (cb_call option \<times> world)" where
  "cmd_log_add_cpl_cb cb_ctx c w =
     (case cmd_log_queue_table w (fst cb_ctx) of
        None \<Rightarrow> Inl Bad_pointer
      | Some log_table \<Rightarrow>
          (let (now, w1) = gettimeofday w
           in case cmd_log_entry_complete (spdk_crc32c w1) (mem w1) (csum_table w1) now c
                     (table log_table (snd cb_ctx)) of
                Inl f \<Rightarrow> Inl f
              | Inr e \<Rightarrow>
                  Inr (map_option (\<lambda>fn. (fn, log_cb_arg e, cpl e)) (log_cb_fn e),
                       w1\<lparr>cmd_log_queue_table := (cmd_log_queue_table w1)
                            (fst cb_ctx \<mapsto> log_table\<lparr>table := (table log_table)(snd cb_ctx := e)\<rparr>)\<rparr>)))"

section \<open>Raw commands and block I/O\<close>

record spdk_nvme_qpair =
  qpair_id :: u16

record spdk_nvme_ns =
  ns_id :: u32
  sector_size :: u32
  num_sectors :: u64
  max_xfer_size :: u32

text \<open>
  \<open>nvme_deallocate_ranges\<close> reads \<open>count\<close> ranges of 16 bytes from the buffer
  (\<open>length\<close> at offset 4, \<open>starting_lba\<close> at offset 8) and clears their slots.
\<close>

function nvme_deallocate_ranges :: "ptr \<Rightarrow> nat \<Rightarrow> nat \<Rightarrow> world \<Rightarrow> fault + world" where
  "nvme_deallocate_ranges ranges count i w =
     (if i < count then
        (case crc32_clear (load64 (mem w) (ranges + 16 * i + 8))
                (ucast (load32 (mem w) (ranges + 16 * i + 4))) False False w of
           Inl f \<Rightarrow> Inl f
         | Inr w1 \<Rightarrow> nvme_deallocate_ranges ranges count (i + 1) w1)
      else Inr w)"
  by pat_completeness auto
termination
  by (relation "measure (\<lambda>(ranges, count, i, w). count - i)") auto

declare nvme_deallocate_ranges.simps [simp del]

definition nvme_send_cmd_raw ::
    "ptr \<Rightarrow> spdk_nvme_qpair option \<Rightarrow> u32 \<Rightarrow> u32 \<Rightarrow> ptr \<Rightarrow> nat \<Rightarrow>
     u32 \<Rightarrow> u32 \<Rightarrow> u32 \<Rightarrow> u32 \<Rightarrow> u32 \<Rightarrow> u32 \<Rightarrow> cb_fn option \<Rightarrow> nat \<Rightarrow> world \<Rightarrow>
     fault + (int \<times> world)" where
  "nvme_send_cmd_raw ctrlr qpair opcode nsid_in buf len c10 c11 c12 c13 c14 c15 cb cb_arg w =
     (if ctrlr = 0 then Inl Assert_failed
      else
        (let c = cmd_zero\<lparr>opc := ucast opcode, nsid := nsid_in, cdw10 := c10, cdw11 := c11,
                   cdw12 := c12, cdw13 := c13, cdw14 := c14, cdw15 := c15\<rparr>;
             qid = (case qpair of Some q \<Rightarrow> qpair_id q | None \<Rightarrow> 0)
         in case cmd_log_add_cmd qid 0 0 0 0 c cb cb_arg w of
              Inl f \<Rightarrow> Inl f
            | Inr (log_entry, w1) \<Rightarrow>
                (case qpair of
                   Some q \<Rightarrow>
                     (case (if opcode = 9 then nvme_deallocate_ranges buf (unat (c10 + 1)) 0 w1
                            else Inr w1) of
                        Inl f \<Rightarrow> Inl f
                      | Inr w2 \<Rightarrow> Inr (spdk_nvme_ctrlr_cmd_raw False c buf len log_entry w2))
                 | None \<Rightarrow> Inr (spdk_nvme_ctrlr_cmd_raw True c buf len log_entry w1))))"

text \<open>
  \<open>ns_cmd_read_write\<close>: \<open>is_read\<close> is a C \<open>int\<close>; the opcode tests it against zero,
  the buffer is filled unless it equals \<open>true\<close>.
\<close>

definition ns_cmd_read_write ::
    "int \<Rightarrow> spdk_nvme_ns option \<Rightarrow> spdk_nvme_qpair option \<Rightarrow> ptr \<Rightarrow> nat \<Rightarrow> u64 \<Rightarrow> u16 \<Rightarrow> u32 \<Rightarrow>
     cb_fn option \<Rightarrow> nat \<Rightarrow> world \<Rightarrow> fault + (int \<times> world)" where
  "ns_cmd_read_write is_read ns qpair buf len lba lba_count io_flags cb cb_arg w =
     (case (ns, qpair) of
        (Some n, Some q) \<Rightarrow>
          (let lba_size = sector_size n
           in if ns_id n \<noteq> 1 \<or> buf = 0 \<or> lba_size \<noteq> 512
                 \<or> \<not> len \<ge> unat (ucast lba_count * lba_size) then Inl Assert_failed
              else
                (let c = cmd_zero\<lparr>opc := (if is_read \<noteq> 0 then 2 else 1), nsid := ns_id n,
                           cdw10 := ucast lba, cdw11 := ucast (drop_bit 32 lba),
                           cdw12 := (ucast lba_count - 1) + push_bit 16 io_flags,
                           cdw13 := 0, cdw14 := 0, cdw15 := 0\<rparr>;
                     w1 = (if is_read \<noteq> 1 then buffer_fill_data buf lba (ucast lba_count) lba_size w
                           else w)
                 in case cmd_log_add_cmd (qpair_id q) buf lba lba_count lba_size c cb cb_arg w1 of
                      Inl f \<Rightarrow> Inl f
                    | Inr (log_entry, w2) \<Rightarrow>
                        Inr (spdk_nvme_ctrlr_cmd_raw False c buf len log_entry w2)))
      | _ \<Rightarrow> Inl Assert_failed)"

section \<open>The I/O worker\<close>

text \<open>
  Modelled from the spec: the declarations of \<open>struct ioworker_args\<close>,
  \<open>struct ioworker_rets\<close> and \<open>struct ioworker_status\<close> are in \<open>driver.h\<close>, which is
  not among the sources. The fields are those the spec lists and \<open>driver.c\<close> uses; the
  widths follow the uses in \<open>driver.c\<close> (\<open>io_count\<close> is assigned \<open>(unsigned long)-1\<close>,
  the LBA fields are printed with \<open>%ld\<close>, \<open>read_percentage\<close> is passed as
  \<open>unsigned short\<close>, \<open>lba_size\<close> is assigned to a \<open>uint16_t\<close>, the others are printed
  with \<open>%d\<close>). The two sampling arrays are pointers to \<open>unsigned int\<close>.
\<close>

record ioworker_args =
  lba_start :: u64
  lba_size :: u16
  lba_align :: u16
  lba_random :: bool
  region_start :: u64
  region_end :: u64
  read_percentage :: u16
  iops :: u32
  io_count :: u64
  seconds :: u32
  qdepth :: u32
  io_counter_per_second :: ptr
  io_counter_per_latency :: ptr
  wid :: u32

record ioworker_rets =
  io_count_read :: u64
  io_count_write :: u64
  latency_max_us :: u32
  mseconds :: u32
  error :: u16

record ioworker_io_ctx =
  data_buf :: ptr
  data_buf_len :: nat
  is_read :: bool
  time_sent :: timeval

text \<open>
  \<open>struct ioworker_global_ctx\<close>. The pointers \<open>args\<close>, \<open>rets\<close>, \<open>ns\<close> and \<open>qpair\<close> are
  held as the structures they point to (nothing else reaches them during a run), \<open>sts\<close>
  as the index of the worker's row in the status table. \<open>io_ctx\<close> is the array of
  per-I/O contexts that \<open>ioworker_entry\<close> allocates; a callback reaches its context by
  its index.
\<close>

record ioworker_global_ctx =
  args :: ioworker_args
  rets :: ioworker_rets
  sts :: nat
  gctx_ns :: spdk_nvme_ns
  gctx_qpair :: spdk_nvme_qpair
  due_time :: timeval
  io_due_time :: timeval
  io_delay_time :: timeval
  time_next_sec :: timeval
  io_count_till_last_sec :: u64
  sequential_lba :: u64
  io_count_sent :: u64
  io_count_cplt :: u64
  last_sec :: u32
  flag_finish :: bool
  io_ctx :: "nat \<Rightarrow> ioworker_io_ctx"

definition ALIGN_UP :: "u64 \<Rightarrow> u64 \<Rightarrow> fault + u64" where
  "ALIGN_UP n a =
     (if a = 0 then Inl Div_by_zero
      else Inr (if n mod a \<noteq> 0 then n + a - n mod a else n))"

definition ALIGN_DOWN :: "u64 \<Rightarrow> u64 \<Rightarrow> fault + u64" where
  "ALIGN_DOWN n a = (if a = 0 then Inl Div_by_zero else Inr (n - n mod a))"

text \<open>C division of a possibly negative \<open>long\<close> by a positive constant truncates towards
  zero.\<close>

definition c_div :: "int \<Rightarrow> int \<Rightarrow> int" where
  "c_div a b = (if 0 \<le> a then a div b else - ((- a) div b))"

text \<open>\<open>usleep\<close> changes nothing in the state: time passes in the readings of the
  clock alone.\<close>

definition usleep :: "u32 \<Rightarrow> world \<Rightarrow> world" where
  "usleep us w = w"

definition ioworker_send_one_is_finish ::
    "ioworker_args \<Rightarrow> ioworker_global_ctx \<Rightarrow> world \<Rightarrow> fault + (bool \<times> world)" where
  "ioworker_send_one_is_finish a c w =
     (if io_count_sent c = io_count a then Inr (True, w)
      else if \<not> io_count_sent c < io_count a then Inl Assert_failed
      else
        (let (now, w1) = gettimeofday w
         in if timercmp_gt now (due_time c) then Inr (True, w1) else Inr (False, w1)))"

definition ioworker_one_io_throttle ::
    "ioworker_global_ctx \<Rightarrow> timeval \<Rightarrow> world \<Rightarrow> ioworker_global_ctx \<times> world" where
  "ioworker_one_io_throttle g now w =
     (let w1 = (if timercmp_gt (io_due_time g) now
                then usleep (timeval_to_us (timersub (io_due_time g) now)) w else w)
      in (g\<lparr>io_due_time := timeradd (io_due_time g) (io_delay_time g)\<rparr>, w1))"

definition ioworker_get_duration :: "timeval \<Rightarrow> world \<Rightarrow> u32 \<times> world" where
  "ioworker_get_duration start w =
     (let (now, w1) = gettimeofday w;
          diff = timersub now start;
          msec = (word_of_int (tv_sec diff * 1000) :: u32)
      in (word_of_int (uint msec + c_div (tv_usec diff + 500) 1000), w1))"

definition ioworker_update_rets ::
    "ioworker_io_ctx \<Rightarrow> ioworker_rets \<Rightarrow> timeval \<Rightarrow> u32 \<times> ioworker_rets" where
  "ioworker_update_rets ctx ret now =
     (let diff = timersub now (time_sent ctx);
          latency = timeval_to_us diff;
          ret1 = (if latency > latency_max_us ret then ret\<lparr>latency_max_us := latency\<rparr> else ret);
          ret2 = (if is_read ctx then ret1\<lparr>io_count_read := io_count_read ret1 + 1\<rparr>
                  else ret1\<lparr>io_count_write := io_count_write ret1 + 1\<rparr>)
      in (latency, ret2))"

definition ioworker_update_io_count_per_second ::
    "ioworker_global_ctx \<Rightarrow> world \<Rightarrow> ioworker_global_ctx \<times> world" where
  "ioworker_update_io_count_per_second g w =
     (let current_io_count = io_count_read (rets g) + io_count_write (rets g);
          g1 = g\<lparr>time_next_sec := timeradd_second (time_next_sec g) 1\<rparr>;
          w1 = w\<lparr>mem := store32 (mem w)
                  (io_counter_per_second (args g1) + 4 * unat (last_sec g1))
                  (ucast (current_io_count - io_count_till_last_sec g1))\<rparr>;
          g2 = g1\<lparr>last_sec := last_sec g1 + 1\<rparr>
      in (g2\<lparr>io_count_till_last_sec := current_io_count\<rparr>, w1))"

definition ioworker_send_one_is_read :: "u16 \<Rightarrow> world \<Rightarrow> bool \<times> world" where
  "ioworker_send_one_is_read rp w =
     (let (r, w1) = random w in (r mod 100 < unat rp, w1))"

definition ioworker_send_one_lba_sequential ::
    "ioworker_args \<Rightarrow> ioworker_global_ctx \<Rightarrow> u64" where
  "ioworker_send_one_lba_sequential a g =
     (let ret = sequential_lba g + ucast (lba_align a)
      in if ret > region_end a then region_start a else ret)"

definition ioworker_send_one_lba_random :: "ioworker_args \<Rightarrow> world \<Rightarrow> fault + (u64 \<times> world)" where
  "ioworker_send_one_lba_random a w =
     (let (r, w1) = random w
      in if region_end a - region_start a = 0 then Inl Div_by_zero
         else Inr (of_nat r mod (region_end a - region_start a) + region_start a, w1))"

definition ioworker_send_one_lba ::
    "ioworker_args \<Rightarrow> ioworker_global_ctx \<Rightarrow> world \<Rightarrow>
     fault + (u64 \<times> ioworker_global_ctx \<times> world)" where
  "ioworker_send_one_lba a g w =
     (case (if \<not> lba_random a then
              (let ret = ioworker_send_one_lba_sequential a g
               in Inr (ret, g\<lparr>sequential_lba := ret\<rparr>, w))
            else
              (case ioworker_send_one_lba_random a w of
                 Inl f \<Rightarrow> Inl f
               | Inr (ret, w1) \<Rightarrow> Inr (ret, g, w1))) of
        Inl f \<Rightarrow> Inl f
      | Inr (ret, g1, w1) \<Rightarrow>
          (case ALIGN_DOWN ret (ucast (lba_align a)) of
             Inl f \<Rightarrow> Inl f
           | Inr l \<Rightarrow> Inr (l, g1, w1)))"

definition ioworker_send_one ::
    "nat \<Rightarrow> ioworker_global_ctx \<Rightarrow> world \<Rightarrow> fault + (int \<times> ioworker_global_ctx \<times> world)" where
  "ioworker_send_one ctx g w =
     (let a = args g;
          (rd, w1) = ioworker_send_one_is_read (read_percentage a) w
      in case ioworker_send_one_lba a g w1 of
           Inl f \<Rightarrow> Inl f
         | Inr (lba_starting, g1, w2) \<Rightarrow>
             (let lba_count = lba_size a
              in if data_buf (io_ctx g1 ctx) = 0 then Inl Assert_failed
                 else
                   (case ns_cmd_read_write (if rd then 1 else 0) (Some (gctx_ns g1))
                           (Some (gctx_qpair g1)) (data_buf (io_ctx g1 ctx))
                           (data_buf_len (io_ctx g1 ctx)) lba_starting lba_count 0
                           (Some Ioworker_one_cb) ctx w2 of
                      Inl f \<Rightarrow> Inl f
                    | Inr (ret, w3) \<Rightarrow>
                        (if ret \<noteq> 0 then Inr (ret, g1\<lparr>flag_finish := True\<rparr>, w3)
                         else
                           (let g2 = g1\<lparr>io_count_sent := io_count_sent g1 + 1\<rparr>;
                                w4 = w3\<lparr>g_ioworker_status_table :=
                                         (g_ioworker_status_table w3)
                                           (sts g2 := (g_ioworker_status_table w3 (sts g2))
                                              \<lparr>sts_io_count_sent := io_count_sent g2\<rparr>)\<rparr>;
                                (now, w5) = gettimeofday w4;
                                g3 = g2\<lparr>io_ctx := (io_ctx g2)
                                        (ctx := (io_ctx g2 ctx)\<lparr>is_read := rd, time_sent := now\<rparr>)\<rparr>
                            in Inr (0, g3, w5))))))"

text \<open>
  The completion handler of the worker, \<open>ioworker_one_cb\<close>, block by block. \<open>ctx\<close> is
  the index of the per-I/O context, \<open>c\<close> the completion that the trampoline passes.
  First the counters: the completion count and its copy in the status row, the time,
  the statistics in \<open>rets\<close> and the latency histogram.
\<close>

definition ioworker_one_cb_account ::
    "nat \<Rightarrow> ioworker_global_ctx \<Rightarrow> world \<Rightarrow> timeval \<times> ioworker_global_ctx \<times> world" where
  "ioworker_one_cb_account ctx g w =
     (let g1 = g\<lparr>io_count_cplt := io_count_cplt g + 1\<rparr>;
          w1 = w\<lparr>g_ioworker_status_table :=
                   (g_ioworker_status_table w)
                     (sts g1 := (g_ioworker_status_table w (sts g1))
                        \<lparr>sts_io_count_cplt := io_count_cplt g1\<rparr>)\<rparr>;
          (now, w2) = gettimeofday w1;
          (latency_us, r) = ioworker_update_rets (io_ctx g1 ctx) (rets g1) now;
          g2 = g1\<lparr>rets := r\<rparr>;
          w3 = (if io_counter_per_latency (args g2) \<noteq> 0 then
                  (let slot = io_counter_per_latency (args g2)
                              + 4 * min (US_PER_S - 1) (unat latency_us)
                   in w2\<lparr>mem := store32 (mem w2) slot (load32 (mem w2) slot + 1)\<rparr>)
                else w2)
      in (now, g2, w3))"

text \<open>The block \<open>if (true == nvme_cpl_is_error(cpl))\<close>.\<close>

definition ioworker_one_cb_error :: "spdk_nvme_cpl \<Rightarrow> ioworker_global_ctx \<Rightarrow> ioworker_global_ctx" where
  "ioworker_one_cb_error c g =
     (if spdk_nvme_cpl_is_error c then
        (let err = (ucast (drop_bit 1 (status_raw (status c)) AND 0x7ff) :: u16)
         in if err = 0x0281 \<and> read_percentage (args g) < 100 then g
            else
              (let g1 = g\<lparr>flag_finish := True\<rparr>
               in if error (rets g1) = 0 then g1\<lparr>rets := (rets g1)\<lparr>error := err\<rparr>\<rparr>
                  else g1))
      else g)"

text \<open>The end of the handler: the finish flag is updated unless it is set, and the next
  I/O is sent on the same context unless the worker is finishing.\<close>

definition ioworker_one_cb_next ::
    "nat \<Rightarrow> ioworker_global_ctx \<Rightarrow> world \<Rightarrow> fault + (ioworker_global_ctx \<times> world)" where
  "ioworker_one_cb_next ctx g w =
     (case (if \<not> flag_finish g then
              (case ioworker_send_one_is_finish (args g) g w of
                 Inl f \<Rightarrow> Inl f
               | Inr (fin, w1) \<Rightarrow> Inr (g\<lparr>flag_finish := fin\<rparr>, w1))
            else Inr (g, w)) of
        Inl f \<Rightarrow> Inl f
      | Inr (g1, w1) \<Rightarrow>
          (if \<not> flag_finish g1 then
             (case ioworker_send_one ctx g1 w1 of
                Inl f \<Rightarrow> Inl f
              | Inr (ret, g2, w2) \<Rightarrow> Inr (g2, w2))
           else Inr (g1, w1)))"

definition ioworker_one_cb ::
    "nat \<Rightarrow> spdk_nvme_cpl \<Rightarrow> ioworker_global_ctx \<Rightarrow> world \<Rightarrow>
     fault + (ioworker_global_ctx \<times> world)" where
  "ioworker_one_cb ctx c g w =
     (let (now, g2, w3) = ioworker_one_cb_account ctx g w;
          (g3, w4) = (if tv_usec (io_delay_time g2) \<noteq> 0 then ioworker_one_io_throttle g2 now w3
                      else (g2, w3));
          g4 = ioworker_one_cb_error c g3;
          (g5, w5) = (if io_counter_per_second (args g4) \<noteq> 0 \<and> timercmp_gt now (time_next_sec g4)
                      then ioworker_update_io_count_per_second g4 w4 else (g4, w4))
      in ioworker_one_cb_next ctx g5 w5)"

text \<open>
  \<open>spdk_nvme_qpair_process_completions\<close> of the external driver: for every completion
  that this poll finds, in order, the device's data is in memory and the registered
  callback \<open>cmd_log_add_cpl_cb\<close> runs; it calls the worker's handler, or a function of
  the scripting layer, which does not touch the worker.
\<close>

fun process_completions ::
    "completion list \<Rightarrow> ioworker_global_ctx \<Rightarrow> world \<Rightarrow> fault + (ioworker_global_ctx \<times> world)" where
  "process_completions [] g w = Inr (g, w)"
| "process_completions (d # ds) g w =
     (case cmd_log_add_cpl_cb (done_ctx d) (done_cpl d)
             (w\<lparr>mem := store_bytes (mem w) (done_addr d) (done_data d)\<rparr>) of
        Inl f \<Rightarrow> Inl f
      | Inr (None, w1) \<Rightarrow> process_completions ds g w1
      | Inr (Some (User_cb k, cb_arg, c), w1) \<Rightarrow> process_completions ds g w1
      | Inr (Some (Ioworker_one_cb, cb_arg, c), w1) \<Rightarrow>
          (case ioworker_one_cb cb_arg c g w1 of
             Inl f \<Rightarrow> Inl f
           | Inr (g1, w2) \<Rightarrow> process_completions ds g1 w2))"

definition spdk_nvme_qpair_process_completions ::
    "ioworker_global_ctx \<Rightarrow> world \<Rightarrow> fault + (ioworker_global_ctx \<times> world)" where
  "spdk_nvme_qpair_process_completions g w =
     process_completions (polls w (poll_count w)) g (w\<lparr>poll_count := poll_count w + 1\<rparr>)"

text \<open>\<open>buffer_init\<close>: a zeroed DMA buffer; the allocation must not return \<open>NULL\<close>.\<close>

definition buffer_init :: "nat \<Rightarrow> world \<Rightarrow> fault + (ptr \<times> world)" where
  "buffer_init bytes w =
     (let buf = dma_addr w (dma_allocs w);
          w1 = w\<lparr>dma_allocs := dma_allocs w + 1\<rparr>;
          h = mem w1
      in if buf = 0 then Inl Assert_failed
         else Inr (buf, w1\<lparr>mem := (\<lambda>a. if buf \<le> a \<and> a < buf + bytes then 0 else h a)\<rparr>))"

text \<open>The argument checks at the head of \<open>ioworker_entry\<close>, all of them assertions.\<close>

definition ioworker_check_args :: "ioworker_args \<Rightarrow> bool" where
  "ioworker_check_args a =
     (read_percentage a \<le> 100
      \<and> (io_count a \<noteq> 0 \<or> seconds a \<noteq> 0)
      \<and> unat (seconds a) < 24 * 3600
      \<and> lba_size a \<noteq> 0
      \<and> region_start a < region_end a
      \<and> unat (qdepth a) \<le> CMD_LOG_DEPTH div 2)"

text \<open>The block \<open>//revise args\<close> of \<open>ioworker_entry\<close>, which rewrites the caller's
  structure in place; \<open>nsze\<close> is the number of sectors of the namespace.\<close>

definition ioworker_revise_args :: "u64 \<Rightarrow> ioworker_args \<Rightarrow> fault + ioworker_args" where
  "ioworker_revise_args nsze a =
     (let a1 = (if io_count a = 0 then a\<lparr>io_count := - 1\<rparr> else a);
          a2 = (if seconds a1 = 0 \<or> unat (seconds a1) > 24 * 3600
                then a1\<lparr>seconds := 24 * 3600\<rparr> else a1);
          a3 = (if region_end a2 > nsze then a2\<lparr>region_end := nsze\<rparr> else a2)
      in case ALIGN_UP (region_start a3) (ucast (lba_align a3)) of
           Inl f \<Rightarrow> Inl f
         | Inr rs \<Rightarrow>
             (let a4 = a3\<lparr>region_start := rs\<rparr>;
                  a5 = a4\<lparr>region_end := region_end a4 - ucast (lba_size a4) - 1\<rparr>
              in case ALIGN_DOWN (region_end a5) (ucast (lba_align a5)) of
                   Inl f \<Rightarrow> Inl f
                 | Inr re \<Rightarrow>
                     (let a6 = a5\<lparr>region_end := re\<rparr>;
                          a7 = (if lba_start a6 < region_start a6
                                then a6\<lparr>lba_start := region_start a6\<rparr> else a6);
                          a8 = (if io_count a7 < ucast (qdepth a7)
                                then a7\<lparr>qdepth := ucast (io_count a7)\<rparr> else a7)
                      in Inr a8)))"

text \<open>The first batch: one buffer and one I/O for each of the \<open>qdepth\<close> contexts. The
  return code of \<open>ioworker_send_one\<close> is not looked at.\<close>

function ioworker_first_batch ::
    "u32 \<Rightarrow> nat \<Rightarrow> ioworker_global_ctx \<Rightarrow> world \<Rightarrow> fault + (ioworker_global_ctx \<times> world)" where
  "ioworker_first_batch sector_sz i g w =
     (if i < unat (qdepth (args g)) then
        (let len = unat (ucast (lba_size (args g)) * sector_sz)
         in case buffer_init len w of
              Inl f \<Rightarrow> Inl f
            | Inr (buf, w1) \<Rightarrow>
                (let g1 = g\<lparr>io_ctx := (io_ctx g)
                             (i := (io_ctx g i)\<lparr>data_buf_len := len, data_buf := buf\<rparr>)\<rparr>
                 in case ioworker_send_one i g1 w1 of
                      Inl f \<Rightarrow> Inl f
                    | Inr (ret, g2, w2) \<Rightarrow> ioworker_first_batch sector_sz (i + 1) g2 w2))
      else Inr (g, w))"
  by pat_completeness auto

lemma ioworker_send_one_lba_args:
  "ioworker_send_one_lba a g w = Inr (l, g1, w1) \<Longrightarrow> args g1 = args g"
  by (auto simp: ioworker_send_one_lba_def Let_def split: if_splits sum.splits prod.splits)

lemma ioworker_send_one_args:
  "ioworker_send_one ctx g w = Inr (ret, g1, w1) \<Longrightarrow> args g1 = args g"
  by (auto simp: ioworker_send_one_def Let_def dest!: ioworker_send_one_lba_args
      split: if_splits sum.splits prod.splits)

termination ioworker_first_batch
proof (relation "measure (\<lambda>(sector_sz, i, g, w). unat (qdepth (args g)) - i)")
  show "wf (measure (\<lambda>(sector_sz, i, g, w). unat (qdepth (args g)) - i))" by simp
next
  fix sector_sz :: u32 and i :: nat and g w len x2 buf_w buf w1 g1 x2a ret_g ret g2_w g2 w2
  assume lt: "i < unat (qdepth (args g))"
    and g1: "g1 = g\<lparr>io_ctx := (io_ctx g)
                 (i := (io_ctx g i)\<lparr>data_buf_len := len, data_buf := buf\<rparr>)\<rparr>"
    and s: "ioworker_send_one i g1 w1 = Inr x2a" "(ret, g2_w) = x2a" "(g2, w2) = g2_w"
  from s have "ioworker_send_one i g1 w1 = Inr (ret, g2, w2)" by auto
  then have "args g2 = args g1" by (rule ioworker_send_one_args)
  with g1 have "args g2 = args g" by simp
  with lt show "((sector_sz, i + 1, g2, w2), (sector_sz, i, g, w))
      \<in> measure (\<lambda>(sector_sz, i, g, w). unat (qdepth (args g)) - i)"
    by simp
qed

declare ioworker_first_batch.simps [simp del]

text \<open>
  The wait loop. Each round reads the clock for the watchdog and polls the queue pair
  once; \<open>fuel\<close> bounds the number of rounds, and \<open>None\<close> means that the loop is still
  running when they are used up.
\<close>

fun ioworker_wait ::
    "nat \<Rightarrow> timeval \<Rightarrow> ioworker_global_ctx \<Rightarrow> world \<Rightarrow>
     (fault + (int \<times> ioworker_global_ctx \<times> world)) option" where
  "ioworker_wait 0 test_start g w =
     (if io_count_sent g \<noteq> io_count_cplt g \<or> \<not> flag_finish g then None
      else Some (Inr (0, g, w)))"
| "ioworker_wait (Suc fuel) test_start g w =
     (if io_count_sent g \<noteq> io_count_cplt g \<or> \<not> flag_finish g then
        (let (d, w1) = ioworker_get_duration test_start w
         in if unat d > unat (seconds (args g)) * 1000 + 10 * 1000 then Some (Inr (- 3, g, w1))
            else
              (case spdk_nvme_qpair_process_completions g w1 of
                 Inl f \<Rightarrow> Some (Inl f)
               | Inr (g1, w2) \<Rightarrow> ioworker_wait fuel test_start g1 w2))
      else Some (Inr (0, g, w)))"

text \<open>\<open>buffer_fini\<close> on every context: each buffer must not be \<open>NULL\<close>.\<close>

definition ioworker_release :: "ioworker_global_ctx \<Rightarrow> bool" where
  "ioworker_release g =
     list_all (\<lambda>i. data_buf (io_ctx g i) \<noteq> 0) [0..<unat (qdepth (args g))]"

text \<open>The block \<open>//init global ctx\<close> of \<open>ioworker_entry\<close>, for the revised arguments and
  the start time; no per-I/O context is initialised yet.\<close>

definition ioworker_gctx_init ::
    "spdk_nvme_ns \<Rightarrow> spdk_nvme_qpair \<Rightarrow> ioworker_args \<Rightarrow> ioworker_rets \<Rightarrow> timeval \<Rightarrow>
     ioworker_global_ctx" where
  "ioworker_gctx_init n qp a r test_start =
     (let io_delay = \<lparr>tv_sec = 0,
             tv_usec = (if iops a \<noteq> 0 then int (US_PER_S div unat (iops a)) else 0)\<rparr>
      in \<lparr>args = a, rets = r, sts = unat (wid a), gctx_ns = n, gctx_qpair = qp,
          due_time = timeradd_second test_start (seconds a),
          io_due_time = timeradd test_start io_delay,
          io_delay_time = io_delay,
          time_next_sec = timeradd_second test_start 1,
          io_count_till_last_sec = 0,
          sequential_lba = lba_start a,
          io_count_sent = 0, io_count_cplt = 0, last_sec = 0,
          flag_finish = False,
          io_ctx = (\<lambda>i. \<lparr>data_buf = 0, data_buf_len = 0, is_read = False,
                          time_sent = \<lparr>tv_sec = 0, tv_usec = 0\<rparr>\<rparr>)\<rparr>)"

text \<open>
  \<open>ioworker_entry\<close>. The result is the return code with the caller's \<open>args\<close> and \<open>rets\<close>
  as the call leaves them, and the process state.
\<close>

definition ioworker_entry ::
    "nat \<Rightarrow> spdk_nvme_ns option \<Rightarrow> spdk_nvme_qpair \<Rightarrow> ioworker_args \<Rightarrow> world \<Rightarrow>
     (fault + (int \<times> ioworker_args \<times> ioworker_rets \<times> world)) option" where
  "ioworker_entry fuel ns_opt qp a w =
     (case ns_opt of
        None \<Rightarrow> Some (Inl Bad_pointer)
      | Some n \<Rightarrow>
          (let nsze = num_sectors n;
               sector_sz = sector_size n;
               r = \<lparr>io_count_read = 0, io_count_write = 0, latency_max_us = 0, mseconds = 0,
                    error = 0\<rparr>
           in if \<not> ioworker_check_args a then Some (Inl Assert_failed)
              else if ucast (lba_size a) * sector_sz > max_xfer_size n
              then Some (Inr (- 2, a, r\<lparr>error := 0x0002\<rparr>, w))
              else
                (case ioworker_revise_args nsze a of
                   Inl f \<Rightarrow> Some (Inl f)
                 | Inr a1 \<Rightarrow>
                     (let (test_start, w1) = gettimeofday w;
                          g = ioworker_gctx_init n qp a1 r test_start
                      in case ioworker_first_batch sector_sz 0 g w1 of
                           Inl f \<Rightarrow> Some (Inl f)
                         | Inr (g1, w2) \<Rightarrow>
                             (case ioworker_wait fuel test_start g1 w2 of
                                None \<Rightarrow> None
                              | Some (Inl f) \<Rightarrow> Some (Inl f)
                              | Some (Inr (ret, g2, w3)) \<Rightarrow>
                                  (let (d, w4) = ioworker_get_duration test_start w3;
                                       r1 = (rets g2)\<lparr>mseconds := d\<rparr>
                                   in if \<not> ioworker_release g2 then Some (Inl Assert_failed)
                                      else Some (Inr (ret, args g2, r1, w4))))))))"

section \<open>A concrete process state\<close>

text \<open>
  A state to run the definitions on: an empty heap and checksum table, zeroed command
  logs for the admin queue and queue 1, a clock that advances one second per reading,
  and the length of the data as a stand-in for the CRC routine.
\<close>

definition example_cpl :: spdk_nvme_cpl where
  "example_cpl =
     \<lparr>cdw0 = 0, rsvd1 = 0, cdw2 = 0, cid = 0,
      status = \<lparr>p_tag = False, sc = 0, sct = 0, rsvd2 = 0, m_more = False, dnr = False\<rparr>\<rparr>"

definition example_entry :: cmd_log_entry_t where
  "example_entry =
     \<lparr>time_cmd = \<lparr>tv_sec = 0, tv_usec = 0\<rparr>, cmd = cmd_zero,
      time_cpl = \<lparr>tv_sec = 0, tv_usec = 0\<rparr>, cpl = example_cpl,
      log_buf = 0, log_lba = 0, log_lba_count = 0, log_lba_size = 0,
      log_cb_fn = None, log_cb_arg = 0\<rparr>"

definition example_log_table :: cmd_log_table_t where
  "example_log_table = \<lparr>table = (\<lambda>k. example_entry), tail_index = 0\<rparr>"

definition example_world :: world where
  "example_world =
     \<lparr>mem = (\<lambda>a. 0), g_driver_table_size = 4096, io_token = 0, csum_table = (\<lambda>k. 0),
      cmd_log_queue_table = (\<lambda>q. if q < 2 then Some example_log_table else None),
      g_ioworker_status_table = (\<lambda>k. \<lparr>sts_io_count_sent = 0, sts_io_count_cplt = 0\<rparr>),
      spdk_crc32c = (\<lambda>bs. of_nat (length bs)),
      clock = (\<lambda>k. \<lparr>tv_sec = int k, tv_usec = 0\<rparr>), clock_reads = 0,
      random_seq = (\<lambda>k. k), random_reads = 0,
      submit_rc = (\<lambda>k. 0), driver_calls = [],
      dma_addr = (\<lambda>k. 4096 * (k + 1)), dma_allocs = 0,
      polls = (\<lambda>k. []), poll_count = 0\<rparr>"

text \<open>A logged one-block read of LBA 7 into the buffer at 4096, with the slot of LBA 7
  marked uncorrectable.\<close>

definition example_read_table :: cmd_log_table_t where
  "example_read_table =
     \<lparr>table = (\<lambda>k. example_entry\<lparr>cmd := cmd_zero\<lparr>opc := 2\<rparr>, log_buf := 4096, log_lba := 7,
                   log_lba_count := 1, log_lba_size := 512, log_cb_fn := Some (User_cb 0)\<rparr>),
      tail_index = 1\<rparr>"

definition example_read_world :: world where
  "example_read_world =
     example_world\<lparr>csum_table := (\<lambda>k. if k = 7 then 0xffffffff else 0),
       cmd_log_queue_table := (\<lambda>q. if q < 2 then Some example_read_table else None)\<rparr>"

definition example_ns :: spdk_nvme_ns where
  "example_ns = \<lparr>ns_id = 1, sector_size = 512, num_sectors = 1024, max_xfer_size = 131072\<rparr>"

text \<open>The arguments of a sequential read run over the region \<open>[0, 8)\<close>, and a worker
  context as \<open>ioworker_entry\<close> sets it up for them.\<close>

definition example_args :: ioworker_args where
  "example_args =
     \<lparr>lba_start = 0, lba_size = 1, lba_align = 1, lba_random = False, region_start = 0,
      region_end = 8, read_percentage = 100, iops = 0, io_count = 20, seconds = 100,
      qdepth = 20, io_counter_per_second = 0, io_counter_per_latency = 0, wid = 0\<rparr>"

definition example_gctx :: ioworker_global_ctx where
  "example_gctx =
     \<lparr>args = example_args,
      rets = \<lparr>io_count_read = 0, io_count_write = 0, latency_max_us = 0, mseconds = 0,
              error = 0\<rparr>,
      sts = 0, gctx_ns = example_ns, gctx_qpair = \<lparr>qpair_id = 1\<rparr>,
      due_time = \<lparr>tv_sec = 100, tv_usec = 0\<rparr>, io_due_time = \<lparr>tv_sec = 0, tv_usec = 0\<rparr>,
      io_delay_time = \<lparr>tv_sec = 0, tv_usec = 0\<rparr>, time_next_sec = \<lparr>tv_sec = 1, tv_usec = 0\<rparr>,
      io_count_till_last_sec = 0, sequential_lba = 0, io_count_sent = 0, io_count_cplt = 0,
      last_sec = 0, flag_finish = False,
      io_ctx = (\<lambda>i. \<lparr>data_buf = 4096 * (i + 1), data_buf_len = 512, is_read = False,
                      time_sent = \<lparr>tv_sec = 0, tv_usec = 0\<rparr>\<rparr>)\<rparr>"

text \<open>A run of one I/O with no time limit given, on a device that completes the command
  at the first poll.\<close>

definition example_small_args :: ioworker_args where
  "example_small_args = example_args\<lparr>seconds := 0, io_count := 1, qdepth := 1\<rparr>"

definition example_poll_world :: world where
  "example_poll_world =
     example_world\<lparr>polls := (\<lambda>k. if k = 0
        then [\<lparr>done_ctx = (1, 0), done_cpl = example_cpl, done_addr = 0, done_data = []\<rparr>]
        else [])\<rparr>"

text \<open>The device for the run of 20 I/Os: the first poll finds all 20 commands completed,
  in the order of their log entries.\<close>

definition example_run_world :: world where
  "example_run_world =
     example_world\<lparr>polls := (\<lambda>k. if k = 0
        then map (\<lambda>i. \<lparr>done_ctx = (1, i), done_cpl = example_cpl, done_addr = 0,
                         done_data = []\<rparr>) [0..<20]
        else [])\<rparr>"



section \<open>Read verification, block by block\<close>

text \<open>
  The verdict on block \<open>i\<close> of a buffer of 512-byte blocks read from \<open>lba\<close> on:
  \<open>0\<close> when the slot is unmapped or everything agrees, \<open>-1\<close> for an uncorrectable slot,
  \<open>-2\<close> when the first 8 bytes are not the block's LBA, \<open>-3\<close> when the clamped checksum
  differs from the slot. \<open>verify_blocks_in_order\<close> is the verdict of the first block, in
  order, whose verdict is not \<open>0\<close>.
\<close>

definition block_verdict ::
    "(u8 list \<Rightarrow> u32) \<Rightarrow> heap \<Rightarrow> (nat \<Rightarrow> u32) \<Rightarrow> ptr \<Rightarrow> u64 \<Rightarrow> nat \<Rightarrow> int" where
  "block_verdict crc32c h t buf lba i =
     (let slot = t (unat (lba + of_nat i))
      in if slot = 0 then 0
         else if slot = 0xffffffff then - 1
         else if load64 h (buf + 512 * i) \<noteq> lba + of_nat i then - 2
         else if buffer_calc_csum crc32c h (buf + 512 * i) 512 \<noteq> slot then - 3
         else 0)"

definition verify_blocks_in_order ::
    "(u8 list \<Rightarrow> u32) \<Rightarrow> heap \<Rightarrow> (nat \<Rightarrow> u32) \<Rightarrow> ptr \<Rightarrow> u64 \<Rightarrow> nat \<Rightarrow> int" where
  "verify_blocks_in_order crc32c h t buf lba n =
     (case find (\<lambda>i. block_verdict crc32c h t buf lba i \<noteq> 0) [0..<n] of
        None \<Rightarrow> 0
      | Some i \<Rightarrow> block_verdict crc32c h t buf lba i)"

section \<open>Token reservations in their order\<close>

text \<open>
  The fetch-adds on the shared counter are totally ordered. \<open>token_bases ns w\<close> runs
  the reservations of a sequence of writes with block counts \<open>ns\<close>, in that order, from
  the state \<open>w\<close>, and lists the base each write obtains.
\<close>

fun token_bases :: "u32 list \<Rightarrow> world \<Rightarrow> u64 list" where
  "token_bases [] w = []"
| "token_bases (n # ns) w =
     (let (token, w1) = atomic_fetch_add_io_token (ucast n) w in token # token_bases ns w1)"

section \<open>The LBA of a submitted command\<close>

text \<open>The LBA that a block I/O command addresses: CDW10 holds its low 32 bits, CDW11
  the high ones.\<close>

definition call_lba :: "driver_call \<Rightarrow> u64" where
  "call_lba c = ucast (cdw10 (call_cmd c)) OR push_bit 32 (ucast (cdw11 (call_cmd c)))"

section \<open>Memory and the fill loop\<close>

lemma length_le_bytes: "length (le_bytes n v) = n"
  by (induction n arbitrary: v) simp_all

lemma le_word_le_bytes: "le_word (le_bytes n v) = take_bit (8 * n) v"
proof (induction n arbitrary: v)
  case 0
  show ?case by simp
next
  case (Suc n)
  have "bit (ucast (ucast v :: 8 word) OR push_bit 8 (take_bit (8 * n) (drop_bit 8 v)) :: 'a word) k
      = bit (take_bit (8 * Suc n) v) k" for k
  proof (cases "k < 8")
    case True
    then show ?thesis by (simp add: bit_simps) (use bit_imp_le_length in blast)
  next
    case False
    then have "8 + (k - 8) = k" by simp
    with False show ?thesis by (simp add: bit_simps) (use bit_imp_le_length in fastforce)
  qed
  then show ?case by (simp add: Suc bit_eq_iff)
qed

lemma load_store_bytes: "load_bytes (store_bytes h p bs) p (length bs) = bs"
  by (rule nth_equalityI) (simp_all add: load_bytes_def store_bytes_def)

lemma load64_store64: "load64 (store64 h p v) p = v"
  using load_store_bytes [of h p "le_bytes 8 v"]
  by (simp add: load64_def store64_def length_le_bytes le_word_le_bytes take_bit_word_eq_self)

lemma store64_other: "a < p \<or> p + 8 \<le> a \<Longrightarrow> store64 h p v a = h a"
  by (auto simp: store64_def store_bytes_def length_le_bytes)

lemma load_bytes_cong:
  "(\<And>a. p \<le> a \<Longrightarrow> a < p + n \<Longrightarrow> h a = h' a) \<Longrightarrow> load_bytes h p n = load_bytes h' p n"
  by (simp add: load_bytes_def)

lemma load64_cong:
  "(\<And>a. p \<le> a \<Longrightarrow> a < p + 8 \<Longrightarrow> h a = h' a) \<Longrightarrow> load64 h p = load64 h' p"
  unfolding load64_def by (simp add: load_bytes_cong [of p 8 h h'])

lemma buffer_calc_csum_cong:
  "(\<And>a. p \<le> a \<Longrightarrow> a < p + n \<Longrightarrow> h a = h' a) \<Longrightarrow>
     buffer_calc_csum c h p n = buffer_calc_csum c h' p n"
  unfolding buffer_calc_csum_def by (simp add: load_bytes_cong [of p n h h'])

lemma buffer_calc_csum_range:
  "buffer_calc_csum c h p n \<noteq> 0 \<and> buffer_calc_csum c h p n \<noteq> 0xffffffff"
  by (simp add: buffer_calc_csum_def Let_def)

lemma w32_ne0: "(x::32 word) \<noteq> 0 \<Longrightarrow> 1 \<le> x"
  by (simp add: word_le_nat_alt unat_gt_0 Suc_leI)

lemma w32_nemax: "(x::32 word) \<noteq> 0xffffffff \<Longrightarrow> x \<le> 0xfffffffe"
proof -
  assume a: "x \<noteq> 0xffffffff"
  have "unat x < 2 ^ 32" using unsigned_less [of x, where 'a=nat] by simp
  moreover have "unat x \<noteq> 4294967295"
  proof
    assume "unat x = 4294967295"
    then have "of_nat (unat x) = (of_nat 4294967295 :: 32 word)" by simp
    then have "x = 0xffffffff" by simp
    with a show False by simp
  qed
  ultimately show ?thesis by (simp add: word_le_nat_alt)
qed

lemma buffer_calc_csum_bounds:
  "1 \<le> buffer_calc_csum c h p n \<and> buffer_calc_csum c h p n \<le> 0xfffffffe"
  using buffer_calc_csum_range [of c h p n] w32_ne0 w32_nemax by blast

lemma fill_loop_table_range:
  "buffer_fill_loop c buf tok n sz i lba (h, t) = (h', t') \<Longrightarrow>
   t' k = t k \<or> (t' k \<noteq> 0 \<and> t' k \<noteq> 0xffffffff)"
proof (induction c buf tok n sz i lba "(h, t)" arbitrary: h t rule: buffer_fill_loop.induct)
  case (1 c buf tok n sz i lba h t)
  show ?case
  proof (cases "i < n")
    case False
    with 1(2) show ?thesis by (simp add: buffer_fill_loop.simps)
  next
    case True
    define ptr where "ptr = buf + (i * sz) mod 2 ^ 32"
    define h2 where "h2 = store64 (store64 h ptr lba) (ptr + 8 * ((sz div 8 + 2 ^ 64 - 1) mod 2 ^ 64)) (tok + of_nat i)"
    define t1 where "t1 = t(unat lba := buffer_calc_csum c h2 ptr sz)"
    have eq: "buffer_fill_loop c buf tok n sz (i + 1) (lba + 1) (h2, t1) = (h', t')"
      using 1(2) True by (subst (asm) buffer_fill_loop.simps) (simp add: Let_def h2_def t1_def ptr_def)
    have "t' k = t1 k \<or> (t' k \<noteq> 0 \<and> t' k \<noteq> 0xffffffff)"
      by (rule 1(1) [OF True ptr_def refl h2_def [unfolded ptr_def[symmetric]] t1_def eq])
    then show ?thesis
      using buffer_calc_csum_range [of c h2 ptr sz] by (auto simp: t1_def split: if_splits)
  qed
qed

lemma fill_loop_stop:
  "\<not> i < n \<Longrightarrow> buffer_fill_loop c buf tok n sz i lba (h, t) = (h, t)"
  by (simp add: buffer_fill_loop.simps)

lemma fill_loop_step512:
  assumes "i < n" "i < 2 ^ 23"
  shows "buffer_fill_loop c buf tok n 512 i lba (h, t) =
           buffer_fill_loop c buf tok n 512 (i + 1) (lba + 1)
             (store64 (store64 h (buf + 512 * i) lba) (buf + 512 * i + 504) (tok + of_nat i),
              t(unat lba := buffer_calc_csum c
                  (store64 (store64 h (buf + 512 * i) lba) (buf + 512 * i + 504) (tok + of_nat i))
                  (buf + 512 * i) 512))"
proof -
  have "i * 512 < 2 ^ 32" using assms(2) by simp
  then have m: "(i * 512) mod 2 ^ 32 = 512 * i" by simp
  have k: "((512::nat) div 8 + 2 ^ 64 - 1) mod 2 ^ 64 = 63" by simp
  show ?thesis
    apply (subst buffer_fill_loop.simps)
    apply (simp only: assms(1) if_True Let_def m k)
    apply (simp add: add.assoc)
    done
qed

lemma fill_block_frame:
  "a < q \<or> q + 512 \<le> a \<Longrightarrow> store64 (store64 h q v) (q + 504) x a = h a"
  by (auto simp: store64_other)

lemma fill_block_mid:
  "8 \<le> k \<Longrightarrow> k < 504 \<Longrightarrow> store64 (store64 h q v) (q + 504) x (q + k) = h (q + k)"
  by (simp add: store64_other)

lemma fill_block_head: "load64 (store64 (store64 h q v) (q + 504) x) q = v"
proof -
  have "load64 (store64 (store64 h q v) (q + 504) x) q = load64 (store64 h q v) q"
    by (rule load64_cong) (simp add: store64_other)
  then show ?thesis by (simp add: load64_store64)
qed

lemma fill_block_tail: "load64 (store64 (store64 h q v) (q + 504) x) (q + 504) = x"
  by (simp add: load64_store64)

lemma of_nat_64_neq0: "0 < d \<Longrightarrow> d < 2 ^ 23 \<Longrightarrow> (of_nat d :: 64 word) \<noteq> 0"
proof
  assume a: "0 < d" "d < 2 ^ 23" "(of_nat d :: 64 word) = 0"
  have "d < 2 ^ 64" using a(2) by (rule less_trans) simp
  then have "unat (of_nat d :: 64 word) = d" by (simp add: unat_of_nat)
  with a(1,3) show False by simp
qed

lemma fill_loop_512:
  assumes "n \<le> 2 ^ 23"
  shows "buffer_fill_loop c buf tok n 512 i lba (h, t) = (h', t') \<Longrightarrow>
     (\<forall>a. a < buf + 512 * i \<or> buf + 512 * n \<le> a \<longrightarrow> h' a = h a) \<and>
     (\<forall>j k. i \<le> j \<and> j < n \<and> 8 \<le> k \<and> k < 504 \<longrightarrow> h' (buf + 512 * j + k) = h (buf + 512 * j + k)) \<and>
     (\<forall>j. i \<le> j \<and> j < n \<longrightarrow> load64 h' (buf + 512 * j) = lba + of_nat (j - i)) \<and>
     (\<forall>j. i \<le> j \<and> j < n \<longrightarrow> load64 h' (buf + 512 * j + 504) = tok + of_nat j) \<and>
     (\<forall>j. i \<le> j \<and> j < n \<longrightarrow>
        t' (unat (lba + of_nat (j - i))) = buffer_calc_csum c h' (buf + 512 * j) 512) \<and>
     (\<forall>k. (\<forall>j. i \<le> j \<and> j < n \<longrightarrow> k \<noteq> unat (lba + of_nat (j - i))) \<longrightarrow> t' k = t k)"
proof (induction "n - i" arbitrary: i lba h t)
  case 0
  then have ni: "\<not> i < n" by simp
  with 0(2) have "h' = h" "t' = t" by (simp_all add: fill_loop_stop)
  with ni show ?case by auto
next
  case (Suc d)
  then have lt: "i < n" by simp
  with assms have lt23: "i < 2 ^ 23" by simp
  define q where "q = buf + 512 * i"
  define H where "H = store64 (store64 h q lba) (q + 504) (tok + of_nat i)"
  define T where "T = t(unat lba := buffer_calc_csum c H q 512)"
  have eq: "buffer_fill_loop c buf tok n 512 (i + 1) (lba + 1) (H, T) = (h', t')"
    using Suc(3) fill_loop_step512 [OF lt lt23, of c buf tok lba h t]
    by (simp add: H_def T_def q_def)
  have d: "d = n - (i + 1)" using Suc(2) by simp
  note IH = Suc(1) [OF d eq]
  have fr: "\<And>a. a < buf + 512 * (i + 1) \<or> buf + 512 * n \<le> a \<Longrightarrow> h' a = H a"
    using IH by blast
  have Hfr: "\<And>a. a < q \<or> q + 512 \<le> a \<Longrightarrow> H a = h a"
    unfolding H_def by (rule fill_block_frame)
  have q1: "buf + 512 * (i + 1) = q + 512" by (simp add: q_def)
  have hq: "\<And>a. q \<le> a \<Longrightarrow> a < q + 512 \<Longrightarrow> h' a = H a"
  proof -
    fix a assume "q \<le> a" "a < q + 512"
    then have "a < buf + 512 * (i + 1)" by (simp add: q_def)
    then show "h' a = H a" using fr by blast
  qed
  have A: "\<forall>a. a < buf + 512 * i \<or> buf + 512 * n \<le> a \<longrightarrow> h' a = h a"
  proof (intro allI impI)
    fix a assume a: "a < buf + 512 * i \<or> buf + 512 * n \<le> a"
    have "q + 512 \<le> buf + 512 * n" using lt by (simp add: q_def)
    with a have "a < q \<or> q + 512 \<le> a" by (auto simp: q_def)
    moreover from a have "a < buf + 512 * (i + 1) \<or> buf + 512 * n \<le> a" by auto
    ultimately show "h' a = h a" using fr Hfr by simp
  qed
  have B: "\<forall>j k. i \<le> j \<and> j < n \<and> 8 \<le> k \<and> k < 504 \<longrightarrow>
             h' (buf + 512 * j + k) = h (buf + 512 * j + k)"
  proof (intro allI impI)
    fix j k :: nat assume a: "i \<le> j \<and> j < n \<and> 8 \<le> k \<and> k < 504"
    show "h' (buf + 512 * j + k) = h (buf + 512 * j + k)"
    proof (cases "j = i")
      case True
      have "h' (q + k) = H (q + k)" using a by (intro hq) simp_all
      also have "\<dots> = h (q + k)" unfolding H_def using a by (simp add: fill_block_mid)
      finally show ?thesis using True by (simp add: q_def)
    next
      case False
      with a have j: "i + 1 \<le> j" by simp
      then have "q + 512 \<le> buf + 512 * j + k" by (simp add: q_def)
      then have "H (buf + 512 * j + k) = h (buf + 512 * j + k)" by (intro Hfr) simp
      moreover have "h' (buf + 512 * j + k) = H (buf + 512 * j + k)" using IH j a by blast
      ultimately show ?thesis by simp
    qed
  qed
  have C: "\<forall>j. i \<le> j \<and> j < n \<longrightarrow> load64 h' (buf + 512 * j) = lba + of_nat (j - i)"
  proof (intro allI impI)
    fix j assume a: "i \<le> j \<and> j < n"
    show "load64 h' (buf + 512 * j) = lba + of_nat (j - i)"
    proof (cases "j = i")
      case True
      have "load64 h' q = load64 H q" by (rule load64_cong) (simp add: hq)
      then show ?thesis using True by (simp add: H_def fill_block_head q_def)
    next
      case False
      with a have j: "i + 1 \<le> j" by simp
      then have "load64 h' (buf + 512 * j) = lba + 1 + of_nat (j - (i + 1))" using IH a by blast
      moreover have "j - i = Suc (j - (i + 1))" using j by simp
      ultimately show ?thesis by simp
    qed
  qed
  have D: "\<forall>j. i \<le> j \<and> j < n \<longrightarrow> load64 h' (buf + 512 * j + 504) = tok + of_nat j"
  proof (intro allI impI)
    fix j assume a: "i \<le> j \<and> j < n"
    show "load64 h' (buf + 512 * j + 504) = tok + of_nat j"
    proof (cases "j = i")
      case True
      have "load64 h' (q + 504) = load64 H (q + 504)" by (rule load64_cong) (simp add: hq)
      then show ?thesis using True by (simp add: H_def fill_block_tail q_def)
    next
      case False
      with a have j: "i + 1 \<le> j" by simp
      then show ?thesis using IH a by blast
    qed
  qed
  have Tfr: "\<And>k. (\<forall>j. i + 1 \<le> j \<and> j < n \<longrightarrow> k \<noteq> unat (lba + 1 + of_nat (j - (i + 1)))) \<Longrightarrow> t' k = T k"
    using IH by blast
  have sh: "\<And>j. i + 1 \<le> j \<Longrightarrow> lba + 1 + of_nat (j - (i + 1)) = lba + of_nat (j - i)"
  proof -
    fix j assume "i + 1 \<le> j"
    then have "j - i = Suc (j - (i + 1))" by simp
    then show "lba + 1 + of_nat (j - (i + 1)) = lba + of_nat (j - i)" by simp
  qed
  have E: "\<forall>j. i \<le> j \<and> j < n \<longrightarrow>
        t' (unat (lba + of_nat (j - i))) = buffer_calc_csum c h' (buf + 512 * j) 512"
  proof (intro allI impI)
    fix j assume a: "i \<le> j \<and> j < n"
    show "t' (unat (lba + of_nat (j - i))) = buffer_calc_csum c h' (buf + 512 * j) 512"
    proof (cases "j = i")
      case True
      have "\<forall>j'. i + 1 \<le> j' \<and> j' < n \<longrightarrow> unat lba \<noteq> unat (lba + 1 + of_nat (j' - (i + 1)))"
      proof (intro allI impI)
        fix j' assume b: "i + 1 \<le> j' \<and> j' < n"
        then have "0 < j' - i" "j' - i < 2 ^ 23" using assms by auto
        then have "(of_nat (j' - i) :: 64 word) \<noteq> 0" by (rule of_nat_64_neq0)
        then have "lba \<noteq> lba + of_nat (j' - i)" by simp
        then show "unat lba \<noteq> unat (lba + 1 + of_nat (j' - (i + 1)))"
          using sh b by (simp add: word_unat_eq_iff)
      qed
      then have "t' (unat lba) = T (unat lba)" by (rule Tfr)
      also have "\<dots> = buffer_calc_csum c H q 512" by (simp add: T_def)
      also have "\<dots> = buffer_calc_csum c h' q 512"
        by (rule buffer_calc_csum_cong) (simp add: hq)
      finally show ?thesis using True by (simp add: q_def)
    next
      case False
      with a have j: "i + 1 \<le> j" by simp
      then have "t' (unat (lba + 1 + of_nat (j - (i + 1)))) = buffer_calc_csum c h' (buf + 512 * j) 512"
        using IH a by blast
      then show ?thesis by (simp only: sh [OF j])
    qed
  qed
  have F: "\<forall>k. (\<forall>j. i \<le> j \<and> j < n \<longrightarrow> k \<noteq> unat (lba + of_nat (j - i))) \<longrightarrow> t' k = t k"
  proof (intro allI impI)
    fix k assume a: "\<forall>j. i \<le> j \<and> j < n \<longrightarrow> k \<noteq> unat (lba + of_nat (j - i))"
    have "\<forall>j. i + 1 \<le> j \<and> j < n \<longrightarrow> k \<noteq> unat (lba + 1 + of_nat (j - (i + 1)))"
      using a sh by auto
    then have "t' k = T k" by (rule Tfr)
    moreover have "k \<noteq> unat lba" using a lt by force
    ultimately show "t' k = t k" by (simp add: T_def)
  qed
  from A B C D E F show ?case by blast
qed

lemma fill_loop_written:
  "buffer_fill_loop c buf tok n sz i lba (h, t) = (h', t') \<Longrightarrow> i \<le> j \<Longrightarrow> j < n \<Longrightarrow>
   t' (unat (lba + of_nat (j - i))) \<noteq> 0 \<and> t' (unat (lba + of_nat (j - i))) \<noteq> 0xffffffff"
proof (induction "n - i" arbitrary: i lba h t)
  case 0
  then show ?case by simp
next
  case (Suc d)
  then have lt: "i < n" by simp
  have s0: "0 + 1 = (1::nat)" by simp
  define ptr where "ptr = buf + (i * sz) mod 2 ^ 32"
  define h2 where "h2 = store64 (store64 h ptr lba) (ptr + 8 * ((sz div 8 + 2 ^ 64 - 1) mod 2 ^ 64)) (tok + of_nat i)"
  define t1 where "t1 = t(unat lba := buffer_calc_csum c h2 ptr sz)"
  have eq: "buffer_fill_loop c buf tok n sz (i + 1) (lba + 1) (h2, t1) = (h', t')"
    using Suc(3) lt by (subst (asm) buffer_fill_loop.simps) (simp add: Let_def h2_def t1_def ptr_def)
  have d: "d = n - (i + 1)" using Suc(2) by simp
  show ?case
  proof (cases "j = i")
    case True
    have "t' (unat lba) = t1 (unat lba) \<or> (t' (unat lba) \<noteq> 0 \<and> t' (unat lba) \<noteq> 0xffffffff)"
      using fill_loop_table_range [OF eq] .
    then show ?thesis
      using True buffer_calc_csum_range [of c h2 ptr sz] by (auto simp: t1_def)
  next
    case False
    with Suc(4) have j: "i + 1 \<le> j" by simp
    then have s: "j - i = Suc (j - (i + 1))" by simp
    have e: "lba + 1 + of_nat (j - (i + 1)) = lba + of_nat (j - i)" by (simp add: s)
    show ?thesis using Suc(1) [OF d eq j Suc(5)] unfolding e .
  qed
qed

section \<open>Checksum normalization\<close>

text \<open>
  Claim C6. The checksum that \<open>buffer_calc_csum\<close> returns is the CRC32C of the block
  with \<open>0\<close> mapped to \<open>1\<close> and \<open>0xFFFFFFFF\<close> to \<open>0xFFFFFFFE\<close>, so it lies in
  \<open>[1, 0xFFFFFFFE]\<close>; every slot that \<open>buffer_fill_data\<close> writes for a block of the
  write holds such a value, and no slot that the write changes holds a sentinel. For
  blocks of 512 bytes, the size of every write that reaches \<open>buffer_fill_data\<close>, the
  slot of block \<open>i\<close>, at \<open>lba + i\<close>, holds exactly the normalized CRC32C of the 512
  bytes of that block as the write leaves them in the buffer, and every other slot of
  the table is as it was.
\<close>

theorem calc_csum_clamped:
  "buffer_calc_csum crc32c h ptr len =
     (if crc32c (load_bytes h ptr len) = 0 then 1
      else if crc32c (load_bytes h ptr len) = 0xffffffff then 0xfffffffe
      else crc32c (load_bytes h ptr len))
   \<and> 1 \<le> buffer_calc_csum crc32c h ptr len
   \<and> buffer_calc_csum crc32c h ptr len \<le> 0xfffffffe
   \<and> (\<forall>i < unat cnt.
        1 \<le> csum_table (buffer_fill_data buf lba cnt sz w) (unat (lba + of_nat i))
        \<and> csum_table (buffer_fill_data buf lba cnt sz w) (unat (lba + of_nat i))
             \<le> 0xfffffffe)
   \<and> (\<forall>k. csum_table (buffer_fill_data buf lba cnt sz w) k \<noteq> csum_table w k \<longrightarrow>
        csum_table (buffer_fill_data buf lba cnt sz w) k \<noteq> 0
        \<and> csum_table (buffer_fill_data buf lba cnt sz w) k \<noteq> 0xffffffff)
   \<and> (sz = 512 \<and> unat cnt \<le> 2 ^ 23 \<longrightarrow>
        (\<forall>i < unat cnt.
           csum_table (buffer_fill_data buf lba cnt sz w) (unat (lba + of_nat i)) =
             (if spdk_crc32c w (load_bytes (mem (buffer_fill_data buf lba cnt sz w))
                    (buf + 512 * i) 512) = 0 then 1
              else if spdk_crc32c w (load_bytes (mem (buffer_fill_data buf lba cnt sz w))
                    (buf + 512 * i) 512) = 0xffffffff then 0xfffffffe
              else spdk_crc32c w (load_bytes (mem (buffer_fill_data buf lba cnt sz w))
                    (buf + 512 * i) 512)))
        \<and> (\<forall>k. (\<forall>i < unat cnt. k \<noteq> unat (lba + of_nat i)) \<longrightarrow>
              csum_table (buffer_fill_data buf lba cnt sz w) k = csum_table w k))"
proof -
  obtain h' t' where r: "buffer_fill_loop (spdk_crc32c w) buf (io_token w) (unat cnt)
      (unat sz) 0 lba (mem w, csum_table w) = (h', t')"
    by (cases "buffer_fill_loop (spdk_crc32c w) buf (io_token w) (unat cnt)
      (unat sz) 0 lba (mem w, csum_table w)") auto
  then have tab: "csum_table (buffer_fill_data buf lba cnt sz w) = t'"
    and hp: "mem (buffer_fill_data buf lba cnt sz w) = h'"
    by (simp_all add: buffer_fill_data_def atomic_fetch_add_io_token_def)
  have a: "buffer_calc_csum crc32c h ptr len =
     (if crc32c (load_bytes h ptr len) = 0 then 1
      else if crc32c (load_bytes h ptr len) = 0xffffffff then 0xfffffffe
      else crc32c (load_bytes h ptr len))"
    by (simp add: buffer_calc_csum_def Let_def)
  have b: "\<forall>i < unat cnt. 1 \<le> t' (unat (lba + of_nat i)) \<and> t' (unat (lba + of_nat i)) \<le> 0xfffffffe"
  proof (intro allI impI)
    fix i assume "i < unat cnt"
    then have "t' (unat (lba + of_nat (i - 0))) \<noteq> 0 \<and> t' (unat (lba + of_nat (i - 0))) \<noteq> 0xffffffff"
      by (intro fill_loop_written [OF r]) simp_all
    then show "1 \<le> t' (unat (lba + of_nat i)) \<and> t' (unat (lba + of_nat i)) \<le> 0xfffffffe"
      using w32_ne0 w32_nemax by simp
  qed
  have c: "\<forall>k. t' k \<noteq> csum_table w k \<longrightarrow> t' k \<noteq> 0 \<and> t' k \<noteq> 0xffffffff"
    using fill_loop_table_range [OF r] by blast
  have d: "(\<forall>i < unat cnt.
           t' (unat (lba + of_nat i)) =
             (if spdk_crc32c w (load_bytes h' (buf + 512 * i) 512) = 0 then 1
              else if spdk_crc32c w (load_bytes h' (buf + 512 * i) 512) = 0xffffffff
              then 0xfffffffe
              else spdk_crc32c w (load_bytes h' (buf + 512 * i) 512)))
        \<and> (\<forall>k. (\<forall>i < unat cnt. k \<noteq> unat (lba + of_nat i)) \<longrightarrow> t' k = csum_table w k)"
    if s: "sz = 512 \<and> unat cnt \<le> 2 ^ 23"
  proof -
    from s have le: "unat cnt \<le> 2 ^ 23" by simp
    from s r have r5: "buffer_fill_loop (spdk_crc32c w) buf (io_token w) (unat cnt)
      512 0 lba (mem w, csum_table w) = (h', t')" by simp
    note P = fill_loop_512 [OF le r5]
    have e: "\<forall>j. 0 \<le> j \<and> j < unat cnt \<longrightarrow>
        t' (unat (lba + of_nat (j - 0))) = buffer_calc_csum (spdk_crc32c w) h' (buf + 512 * j) 512"
      using P by blast
    have f: "\<forall>k. (\<forall>j. 0 \<le> j \<and> j < unat cnt \<longrightarrow> k \<noteq> unat (lba + of_nat (j - 0))) \<longrightarrow>
        t' k = csum_table w k"
      using P by blast
    from e have e': "\<forall>i < unat cnt. t' (unat (lba + of_nat i)) =
        buffer_calc_csum (spdk_crc32c w) h' (buf + 512 * i) 512" by simp
    from f have f': "\<forall>k. (\<forall>i < unat cnt. k \<noteq> unat (lba + of_nat i)) \<longrightarrow> t' k = csum_table w k"
      by simp
    from e' f' show ?thesis by (simp add: buffer_calc_csum_def Let_def)
  qed
  show ?thesis
    unfolding tab hp
    using a b c d buffer_calc_csum_bounds [of crc32c h ptr len] by blast
qed

theorem calc_csum_clamped_witness:
  "(0 :: nat) < unat (2 :: u32) \<and> (1 :: nat) < unat (2 :: u32)
   \<and> (512 :: u32) = 512 \<and> unat (2 :: u32) \<le> 2 ^ 23
   \<and> buffer_calc_csum (\<lambda>bs. 0) (\<lambda>a. 0) 0 0 = 1
   \<and> buffer_calc_csum (\<lambda>bs. 0xffffffff) (\<lambda>a. 0) 0 0 = 0xfffffffe
   \<and> buffer_calc_csum (\<lambda>bs. 7) (\<lambda>a. 0) 0 0 = 7
   \<and> spdk_crc32c example_world (load_bytes
         (mem (buffer_fill_data 4096 5 2 512 example_world)) (4096 + 512 * 0) 512) = 512
   \<and> csum_table (buffer_fill_data 4096 5 2 512 example_world) (unat (5 + 0 :: u64)) = 512
   \<and> csum_table (buffer_fill_data 4096 5 2 512 example_world) (unat (5 + 1 :: u64)) = 512
   \<and> csum_table (buffer_fill_data 4096 5 2 512 example_world) 7 = csum_table example_world 7
   \<and> csum_table (buffer_fill_data 4096 5 2 512 (example_world\<lparr>spdk_crc32c := (\<lambda>bs. 0)\<rparr>)) 5 = 1
   \<and> csum_table (buffer_fill_data 4096 5 2 512
        (example_world\<lparr>spdk_crc32c := (\<lambda>bs. 0xffffffff)\<rparr>)) 5 = 0xfffffffe
   \<and> csum_table (buffer_fill_data 4096 5 2 512 example_world) 5 \<noteq> csum_table example_world 5
   \<and> csum_table (buffer_fill_data 4096 5 2 512 example_world) 5 \<noteq> 0"
proof -
  have p: "(0 :: nat) < unat (2 :: u32)" "(1 :: nat) < unat (2 :: u32)" by simp_all
  have s: "(512 :: u32) = 512 \<and> unat (2 :: u32) \<le> 2 ^ 23" by simp
  have z: "csum_table example_world 5 = 0" by (simp add: example_world_def)
  have c: "spdk_crc32c example_world = (\<lambda>bs. of_nat (length bs))"
    by (simp add: example_world_def)
  have c0: "spdk_crc32c (example_world\<lparr>spdk_crc32c := (\<lambda>bs. 0)\<rparr>) = (\<lambda>bs. 0)"
    "spdk_crc32c (example_world\<lparr>spdk_crc32c := (\<lambda>bs. 0xffffffff)\<rparr>) = (\<lambda>bs. 0xffffffff)"
    by simp_all
  note T0 = calc_csum_clamped [of "\<lambda>bs. 0" "\<lambda>a. 0" 0 0 2 4096 5 512 example_world]
  note T1 = calc_csum_clamped [of "\<lambda>bs. 0xffffffff" "\<lambda>a. 0" 0 0 2 4096 5 512
      "example_world\<lparr>spdk_crc32c := (\<lambda>bs. 0)\<rparr>"]
  note T2 = calc_csum_clamped [of "\<lambda>bs. 7" "\<lambda>a. 0" 0 0 2 4096 5 512
      "example_world\<lparr>spdk_crc32c := (\<lambda>bs. 0xffffffff)\<rparr>"]
  have k0: "buffer_calc_csum (\<lambda>bs. 0) (\<lambda>a. 0) 0 0 = 1" using T0 by simp
  have k1: "buffer_calc_csum (\<lambda>bs. 0xffffffff) (\<lambda>a. 0) 0 0 = 0xfffffffe" using T1 by simp
  have k2: "buffer_calc_csum (\<lambda>bs. 7) (\<lambda>a. 0) 0 0 = 7" using T2 by simp
  have ln: "\<And>hh q. spdk_crc32c example_world (load_bytes hh q 512) = 512"
    by (simp add: c load_bytes_def)
  from T0 s have e: "\<forall>i < unat (2 :: u32).
      csum_table (buffer_fill_data 4096 5 2 512 example_world) (unat (5 + of_nat i :: u64)) =
        (if spdk_crc32c example_world (load_bytes (mem (buffer_fill_data 4096 5 2 512 example_world))
                    (4096 + 512 * i) 512) = 0 then 1
         else if spdk_crc32c example_world (load_bytes (mem (buffer_fill_data 4096 5 2 512 example_world))
                    (4096 + 512 * i) 512) = 0xffffffff then 0xfffffffe
         else spdk_crc32c example_world (load_bytes (mem (buffer_fill_data 4096 5 2 512 example_world))
                    (4096 + 512 * i) 512))"
    by blast
  from e [rule_format, of 0] p(1)
  have e0: "csum_table (buffer_fill_data 4096 5 2 512 example_world) (unat (5 + of_nat 0 :: u64)) = 512"
    by (simp add: ln)
  from e [rule_format, of 1] p(2)
  have e1: "csum_table (buffer_fill_data 4096 5 2 512 example_world) (unat (5 + of_nat 1 :: u64)) = 512"
    by (simp add: ln)
  from T0 s have f: "\<forall>k. (\<forall>i < unat (2 :: u32). k \<noteq> unat (5 + of_nat i :: u64)) \<longrightarrow>
      csum_table (buffer_fill_data 4096 5 2 512 example_world) k = csum_table example_world k"
    by blast
  have "\<forall>i < unat (2 :: u32). (7 :: nat) \<noteq> unat (5 + of_nat i :: u64)"
  proof (intro allI impI)
    fix i :: nat assume "i < unat (2 :: u32)"
    then have "i = 0 \<or> i = 1" by auto
    then show "(7 :: nat) \<noteq> unat (5 + of_nat i :: u64)" by auto
  qed
  with f have f7: "csum_table (buffer_fill_data 4096 5 2 512 example_world) 7 = csum_table example_world 7"
    by blast
  from T1 s have "\<forall>i < unat (2 :: u32).
      csum_table (buffer_fill_data 4096 5 2 512 (example_world\<lparr>spdk_crc32c := (\<lambda>bs. 0)\<rparr>))
          (unat (5 + of_nat i :: u64)) = 1"
    by (simp add: c0)
  from this [rule_format, of 0] p(1)
  have g0: "csum_table (buffer_fill_data 4096 5 2 512
        (example_world\<lparr>spdk_crc32c := (\<lambda>bs. 0)\<rparr>)) (unat (5 + of_nat 0 :: u64)) = 1"
    by simp
  from T2 s have "\<forall>i < unat (2 :: u32).
      csum_table (buffer_fill_data 4096 5 2 512
          (example_world\<lparr>spdk_crc32c := (\<lambda>bs. 0xffffffff)\<rparr>))
          (unat (5 + of_nat i :: u64)) = 0xfffffffe"
    by (simp add: c0)
  from this [rule_format, of 0] p(1)
  have g1: "csum_table (buffer_fill_data 4096 5 2 512
        (example_world\<lparr>spdk_crc32c := (\<lambda>bs. 0xffffffff)\<rparr>)) (unat (5 + of_nat 0 :: u64)) = 0xfffffffe"
    by simp
  have n5: "csum_table (buffer_fill_data 4096 5 2 512 example_world) 5 = 512" using e0 by simp
  show ?thesis
    using p s k0 k1 k2 ln e0 e1 f7 g0 g1 n5 z by simp
qed

section \<open>Read verification on completion\<close>

lemma verify_loop_spec:
  assumes "n \<le> 2 ^ 23"
  shows "buffer_verify_loop c h t buf n 512 i (lba + of_nat i) =
     (case find (\<lambda>j. block_verdict c h t buf lba j \<noteq> 0) [i..<n] of
        None \<Rightarrow> 0
      | Some j \<Rightarrow> block_verdict c h t buf lba j)"
proof (induction "n - i" arbitrary: i)
  case 0
  then show ?case by (simp add: buffer_verify_loop.simps)
next
  case (Suc d)
  then have lt: "i < n" by simp
  with assms have "i * 512 < 2 ^ 32" by simp
  then have m: "(i * 512) mod 2 ^ 32 = 512 * i" by simp
  have d: "d = n - (i + 1)" using Suc(2) by simp
  have nx: "lba + of_nat i + 1 = lba + of_nat (i + 1)" by simp
  have IH: "buffer_verify_loop c h t buf n 512 (i + 1) (lba + of_nat i + 1) =
     (case find (\<lambda>j. block_verdict c h t buf lba j \<noteq> 0) [i + 1..<n] of
        None \<Rightarrow> 0
      | Some j \<Rightarrow> block_verdict c h t buf lba j)"
    unfolding nx by (rule Suc(1) [OF d])
  have u: "[i..<n] = i # [i + 1..<n]" using lt by (simp add: upt_conv_Cons)
  show ?case
    apply (subst buffer_verify_loop.simps)
    apply (simp only: lt if_True Let_def m IH u find.simps)
    apply (simp add: block_verdict_def Let_def)
    done
qed

lemma unat_u16_le: "unat (x :: u16) \<le> 2 ^ 23"
proof -
  have "unat x < 2 ^ 16" using unsigned_less [of x, where 'a=nat] by simp
  then show ?thesis by simp
qed

lemma unat_ucast_16_32: "unat (ucast (x :: u16) :: u32) = unat x"
proof -
  have "unat x < 2 ^ 16" using unsigned_less [of x, where 'a=nat] by simp
  then have "unat x < 2 ^ 32" by simp
  then show ?thesis by (simp add: unsigned_ucast_eq take_bit_nat_eq_self)
qed

lemma verify_data_spec:
  "buffer_verify_data c h t buf lba (ucast (n :: u16)) 512 =
     verify_blocks_in_order c h t buf lba (unat n)"
  using verify_loop_spec [OF unat_u16_le, of c h t buf n 0 lba]
  by (simp add: buffer_verify_data_def verify_blocks_in_order_def unat_ucast_16_32)

text \<open>
  Claim C1. When a command logged with opcode \<open>0x02\<close> and a buffer completes, the
  trampoline checks the blocks in order: an unmapped slot (\<open>0\<close>) skips the block, an
  uncorrectable slot (\<open>0xFFFFFFFF\<close>), a first 64-bit word that is not the block's LBA
  or a clamped checksum that differs from the slot fail the verification. On a failure
  the stored completion gets \<open>SCT = 0x02\<close> and \<open>SC = 0x81\<close>, and the callback is
  handed that stored completion. The log entry must pass the trampoline's assertions
  (a block count that is not zero, a block size of 512).
\<close>

theorem completion_verifies_read:
  assumes "cmd_log_queue_table w q = Some lt"
    and "opc (cmd (table lt i)) = 2"
    and "log_buf (table lt i) \<noteq> 0"
    and "log_lba_count (table lt i) \<noteq> 0"
    and "log_lba_size (table lt i) = 512"
  shows "cmd_log_add_cpl_cb (q, i) c w =
     (let e = table lt i;
          now = clock w (clock_reads w);
          failed = (verify_blocks_in_order (spdk_crc32c w) (mem w) (csum_table w)
                      (log_buf e) (log_lba e) (unat (log_lba_count e)) \<noteq> 0);
          stored = c\<lparr>cdw2 := timeval_to_us (timersub now (time_cmd e)),
                     status := (if failed then (status c)\<lparr>sct := 0x02, sc := 0x81\<rparr>
                                else status c)\<rparr>
      in Inr (map_option (\<lambda>fn. (fn, log_cb_arg e, stored)) (log_cb_fn e),
              w\<lparr>clock_reads := clock_reads w + 1,
                cmd_log_queue_table := (cmd_log_queue_table w)
                  (q \<mapsto> lt\<lparr>table := (table lt)(i := e\<lparr>time_cpl := now, cpl := stored\<rparr>)\<rparr>)\<rparr>))"
  using assms
  by (simp add: cmd_log_add_cpl_cb_def cmd_log_entry_complete_def gettimeofday_def Let_def
      verify_data_spec)

theorem completion_verifies_read_witness:
  "cmd_log_queue_table example_read_world 1 = Some example_read_table
   \<and> opc (cmd (table example_read_table 0)) = 2
   \<and> log_buf (table example_read_table 0) \<noteq> 0
   \<and> log_lba_count (table example_read_table 0) \<noteq> 0
   \<and> log_lba_size (table example_read_table 0) = 512
   \<and> (\<exists>w'. cmd_log_add_cpl_cb (1, 0) example_cpl example_read_world =
          Inr (Some (User_cb 0, 0,
                 example_cpl\<lparr>cdw2 := 0, status := (status example_cpl)\<lparr>sct := 0x02, sc := 0x81\<rparr>\<rparr>),
               w'))"
proof -
  have h: "cmd_log_queue_table example_read_world 1 = Some example_read_table"
    "opc (cmd (table example_read_table 0)) = 2"
    "log_buf (table example_read_table 0) \<noteq> 0"
    "log_lba_count (table example_read_table 0) \<noteq> 0"
    "log_lba_size (table example_read_table 0) = 512"
    by (simp_all add: example_read_world_def example_read_table_def example_world_def)
  have v: "verify_blocks_in_order (spdk_crc32c example_read_world) (mem example_read_world)
             (csum_table example_read_world) 4096 7 (unat (1 :: u16)) = - 1"
    by (simp add: verify_blocks_in_order_def block_verdict_def example_read_world_def
        example_world_def)
  show ?thesis
    using h completion_verifies_read [OF h, of example_cpl] v
    by (simp add: Let_def example_read_table_def example_read_world_def example_world_def
        example_entry_def timersub_def timeval_to_us_def)
qed

section \<open>Raw commands are never verified\<close>

lemma cmd_log_add_cmd_ok:
  assumes "unat qid < CMD_LOG_MAX_Q" "cmd_log_queue_table w (unat qid) = Some lt"
    "unat (tail_index lt) < CMD_LOG_DEPTH"
  shows "cmd_log_add_cmd qid buf lba n sz c cb cb_arg w =
     Inr ((unat qid, unat (tail_index lt)),
       w\<lparr>clock_reads := clock_reads w + 1,
         cmd_log_queue_table := (cmd_log_queue_table w)
           (unat qid \<mapsto> \<lparr>table = (table lt)(unat (tail_index lt) :=
               (table lt (unat (tail_index lt)))
                 \<lparr>log_buf := buf, log_lba := lba, log_lba_count := n, log_lba_size := sz,
                  log_cb_fn := cb, log_cb_arg := cb_arg, cmd := c,
                  time_cmd := clock w (clock_reads w)\<rparr>),
             tail_index = (if unat (tail_index lt + 1) = CMD_LOG_DEPTH then 0
                           else tail_index lt + 1)\<rparr>)\<rparr>)"
  using assms by (simp add: cmd_log_add_cmd_def gettimeofday_def Let_def)

lemma crc32_clear_keeps:
  "\<exists>w'. crc32_clear a b False u w = Inr w' \<and> cmd_log_queue_table w' = cmd_log_queue_table w
     \<and> mem w' = mem w"
  by (simp add: crc32_clear_def Let_def)

lemma nvme_deallocate_ranges_keeps:
  "\<exists>w'. nvme_deallocate_ranges r n i w = Inr w' \<and> cmd_log_queue_table w' = cmd_log_queue_table w"
proof (induction "n - i" arbitrary: i w)
  case 0
  then show ?case by (simp add: nvme_deallocate_ranges.simps)
next
  case (Suc d)
  then have lt: "i < n" by simp
  obtain w1 where w1: "crc32_clear (load64 (mem w) (r + 16 * i + 8))
                (ucast (load32 (mem w) (r + 16 * i + 4))) False False w = Inr w1"
     "cmd_log_queue_table w1 = cmd_log_queue_table w"
    using crc32_clear_keeps by blast
  have d: "d = n - (i + 1)" using Suc(2) by simp
  from Suc(1) [OF d, of w1] obtain w' where
    "nvme_deallocate_ranges r n (i + 1) w1 = Inr w'" "cmd_log_queue_table w' = cmd_log_queue_table w1"
    by blast
  then show ?case
    using lt w1 by (subst nvme_deallocate_ranges.simps) simp
qed

lemma complete_no_buf:
  "log_buf e = 0 \<Longrightarrow>
   cmd_log_entry_complete crc h t now c e =
     Inr (e\<lparr>time_cpl := now, cpl := c\<lparr>cdw2 := timeval_to_us (timersub now (time_cmd e))\<rparr>\<rparr>)"
  by (simp add: cmd_log_entry_complete_def Let_def)

text \<open>
  Claim C10. \<open>nvme_send_cmd_raw\<close> logs its command with \<open>buf = NULL\<close>, \<open>lba = 0\<close>,
  \<open>lba_count = 0\<close> and \<open>lba_size = 0\<close> and hands the driver a pointer to that entry.
  When the entry completes, whatever the opcode, the heap and the checksum table are not
  consulted, and the callback receives the driver's completion with dword 2 replaced by
  the latency and nothing else changed.
\<close>

theorem raw_cmd_never_verified:
  assumes "ctrlr \<noteq> 0"
    and "qid = (case qpair of Some q \<Rightarrow> qpair_id q | None \<Rightarrow> 0)"
    and "unat qid < CMD_LOG_MAX_Q"
    and "cmd_log_queue_table w (unat qid) = Some lt"
    and "unat (tail_index lt) < CMD_LOG_DEPTH"
  shows "\<exists>rc w' lt'.
     nvme_send_cmd_raw ctrlr qpair opcode nsid_in buf len c10 c11 c12 c13 c14 c15 cb cb_arg w
       = Inr (rc, w')
     \<and> call_ctx (last (driver_calls w')) = (unat qid, unat (tail_index lt))
     \<and> cmd_log_queue_table w' (unat qid) = Some lt'
     \<and> log_buf (table lt' (unat (tail_index lt))) = 0
     \<and> log_lba (table lt' (unat (tail_index lt))) = 0
     \<and> log_lba_count (table lt' (unat (tail_index lt))) = 0
     \<and> log_lba_size (table lt' (unat (tail_index lt))) = 0
     \<and> opc (cmd (table lt' (unat (tail_index lt)))) = ucast opcode
     \<and> log_cb_fn (table lt' (unat (tail_index lt))) = cb
     \<and> log_cb_arg (table lt' (unat (tail_index lt))) = cb_arg
     \<and> (\<forall>w2 lt2 c.
          cmd_log_queue_table w2 (unat qid) = Some lt2
          \<and> table lt2 (unat (tail_index lt)) = table lt' (unat (tail_index lt)) \<longrightarrow>
          cmd_log_add_cpl_cb (unat qid, unat (tail_index lt)) c w2 =
            (let e = table lt2 (unat (tail_index lt));
                 now = clock w2 (clock_reads w2);
                 stored = c\<lparr>cdw2 := timeval_to_us (timersub now (time_cmd e))\<rparr>
             in Inr (map_option (\<lambda>fn. (fn, cb_arg, stored)) cb,
                  w2\<lparr>clock_reads := clock_reads w2 + 1,
                     cmd_log_queue_table := (cmd_log_queue_table w2)
                       (unat qid \<mapsto> lt2\<lparr>table := (table lt2)
                          (unat (tail_index lt) := e\<lparr>time_cpl := now, cpl := stored\<rparr>)\<rparr>)\<rparr>)))"
proof -
  define c where "c = cmd_zero\<lparr>opc := ucast opcode, nsid := nsid_in, cdw10 := c10, cdw11 := c11,
                   cdw12 := c12, cdw13 := c13, cdw14 := c14, cdw15 := c15\<rparr>"
  define idx where "idx = unat (tail_index lt)"
  define e where "e = (table lt idx)
                 \<lparr>log_buf := 0, log_lba := 0, log_lba_count := 0, log_lba_size := 0,
                  log_cb_fn := cb, log_cb_arg := cb_arg, cmd := c,
                  time_cmd := clock w (clock_reads w)\<rparr>"
  define lt1 where "lt1 = \<lparr>table = (table lt)(idx := e),
             tail_index = (if unat (tail_index lt + 1) = CMD_LOG_DEPTH then 0
                           else tail_index lt + 1)\<rparr>"
  define w1 where "w1 = w\<lparr>clock_reads := clock_reads w + 1,
         cmd_log_queue_table := (cmd_log_queue_table w)(unat qid \<mapsto> lt1)\<rparr>"
  have add: "cmd_log_add_cmd qid 0 0 0 0 c cb cb_arg w = Inr ((unat qid, idx), w1)"
    using cmd_log_add_cmd_ok [OF assms(3,4,5), of 0 0 0 0 c cb cb_arg]
    by (simp add: w1_def lt1_def e_def idx_def)
  have q1: "cmd_log_queue_table w1 (unat qid) = Some lt1" by (simp add: w1_def)
  have ent: "table lt1 idx = e" by (simp add: lt1_def)
  obtain w2 where w2: "(if opcode = 9 then nvme_deallocate_ranges buf (unat (c10 + 1)) 0 w1
                            else Inr w1) = Inr w2" "cmd_log_queue_table w2 = cmd_log_queue_table w1"
    using nvme_deallocate_ranges_keeps [of buf "unat (c10 + 1)" 0 w1] by (cases "opcode = 9") auto
  define wf where "wf = (case qpair of Some q \<Rightarrow> spdk_nvme_ctrlr_cmd_raw False c buf len (unat qid, idx) w2
                          | None \<Rightarrow> spdk_nvme_ctrlr_cmd_raw True c buf len (unat qid, idx) w1)"
  have run: "nvme_send_cmd_raw ctrlr qpair opcode nsid_in buf len c10 c11 c12 c13 c14 c15 cb cb_arg w
       = Inr wf"
    using assms(1) add w2(1)
    by (cases qpair) (simp_all add: nvme_send_cmd_raw_def Let_def c_def [symmetric] assms(2) wf_def)
  have wfq: "cmd_log_queue_table (snd wf) (unat qid) = Some lt1"
    and wfc: "call_ctx (last (driver_calls (snd wf))) = (unat qid, idx)"
    using q1 w2(2) by (cases qpair; simp add: wf_def spdk_nvme_ctrlr_cmd_raw_def)+
  have fields: "log_buf e = 0" "log_lba e = 0" "log_lba_count e = 0" "log_lba_size e = 0"
    "opc (cmd e) = ucast opcode" "log_cb_fn e = cb" "log_cb_arg e = cb_arg"
    by (simp_all add: e_def c_def)
  have later: "\<forall>w2 lt2 c.
          cmd_log_queue_table w2 (unat qid) = Some lt2 \<and> table lt2 idx = table lt1 idx \<longrightarrow>
          cmd_log_add_cpl_cb (unat qid, idx) c w2 =
            (let e = table lt2 idx;
                 now = clock w2 (clock_reads w2);
                 stored = c\<lparr>cdw2 := timeval_to_us (timersub now (time_cmd e))\<rparr>
             in Inr (map_option (\<lambda>fn. (fn, cb_arg, stored)) cb,
                  w2\<lparr>clock_reads := clock_reads w2 + 1,
                     cmd_log_queue_table := (cmd_log_queue_table w2)
                       (unat qid \<mapsto> lt2\<lparr>table := (table lt2)
                          (idx := e\<lparr>time_cpl := now, cpl := stored\<rparr>)\<rparr>)\<rparr>))"
    using fields
    by (auto simp: ent cmd_log_add_cpl_cb_def gettimeofday_def Let_def complete_no_buf)
  show ?thesis
    apply (rule exI [of _ "fst wf"], rule exI [of _ "snd wf"], rule exI [of _ lt1])
    using run wfq wfc fields later
    by (simp add: ent idx_def [symmetric])
qed

theorem raw_cmd_never_verified_witness:
  "(1 :: ptr) \<noteq> 0
   \<and> unat (1 :: u16) < CMD_LOG_MAX_Q
   \<and> cmd_log_queue_table example_world (unat (1 :: u16)) = Some example_log_table
   \<and> unat (tail_index example_log_table) < CMD_LOG_DEPTH
   \<and> (\<exists>rc w' lt'.
        nvme_send_cmd_raw 1 (Some \<lparr>qpair_id = 1\<rparr>) 2 1 4096 512 7 0 0 0 0 0 (Some (User_cb 0)) 0
          example_world = Inr (rc, w')
        \<and> cmd_log_queue_table w' 1 = Some lt'
        \<and> opc (cmd (table lt' 0)) = 2
        \<and> log_buf (table lt' 0) = 0
        \<and> (\<forall>c. \<exists>w3. cmd_log_add_cpl_cb (1, 0) c w' =
               Inr (Some (User_cb 0, 0,
                      c\<lparr>cdw2 := timeval_to_us (timersub (clock w' (clock_reads w'))
                                    (time_cmd (table lt' 0)))\<rparr>), w3)))"
proof -
  have h: "(1 :: ptr) \<noteq> 0"
    "(1 :: u16) = (case Some \<lparr>qpair_id = 1\<rparr> of Some q \<Rightarrow> qpair_id q | None \<Rightarrow> 0)"
    "unat (1 :: u16) < CMD_LOG_MAX_Q"
    "cmd_log_queue_table example_world (unat (1 :: u16)) = Some example_log_table"
    "unat (tail_index example_log_table) < CMD_LOG_DEPTH"
    by (simp_all add: example_world_def example_log_table_def CMD_LOG_MAX_Q_def CMD_LOG_DEPTH_def)
  from raw_cmd_never_verified [OF h, of 2 1 4096 512 7 0 0 0 0 0 "Some (User_cb 0)" 0]
  obtain rc w' lt' where r:
    "nvme_send_cmd_raw 1 (Some \<lparr>qpair_id = 1\<rparr>) 2 1 4096 512 7 0 0 0 0 0 (Some (User_cb 0)) 0
          example_world = Inr (rc, w')"
    "cmd_log_queue_table w' (unat (1 :: u16)) = Some lt'"
    "log_buf (table lt' (unat (tail_index example_log_table))) = 0"
    "opc (cmd (table lt' (unat (tail_index example_log_table)))) = ucast (2 :: u32)"
    "\<forall>w2 lt2 c.
          cmd_log_queue_table w2 (unat (1 :: u16)) = Some lt2
          \<and> table lt2 (unat (tail_index example_log_table))
              = table lt' (unat (tail_index example_log_table)) \<longrightarrow>
          cmd_log_add_cpl_cb (unat (1 :: u16), unat (tail_index example_log_table)) c w2 =
            (let e = table lt2 (unat (tail_index example_log_table));
                 now = clock w2 (clock_reads w2);
                 stored = c\<lparr>cdw2 := timeval_to_us (timersub now (time_cmd e))\<rparr>
             in Inr (map_option (\<lambda>fn. (fn, 0, stored)) (Some (User_cb 0)),
                  w2\<lparr>clock_reads := clock_reads w2 + 1,
                     cmd_log_queue_table := (cmd_log_queue_table w2)
                       (unat (1 :: u16) \<mapsto> lt2\<lparr>table := (table lt2)
                          (unat (tail_index example_log_table) :=
                             e\<lparr>time_cpl := now, cpl := stored\<rparr>)\<rparr>)\<rparr>))"
    by blast
  have t0: "unat (tail_index example_log_table) = 0" by (simp add: example_log_table_def)
  from r(5) r(2) have "\<forall>c. \<exists>w3. cmd_log_add_cpl_cb (1, 0) c w' =
               Inr (Some (User_cb 0, 0,
                      c\<lparr>cdw2 := timeval_to_us (timersub (clock w' (clock_reads w'))
                                    (time_cmd (table lt' 0)))\<rparr>), w3)"
    by (simp add: t0 Let_def)
  with r(1-4) h show ?thesis by (auto simp: t0)
qed

section \<open>Write payload and its order with the submission\<close>

lemma unat_u16_times_512: "unat (ucast (n :: u16) * 512 :: u32) = unat n * 512"
proof -
  have "unat n < 2 ^ 16" using unsigned_less [of n, where 'a=nat] by simp
  then have "unat n * 512 < 2 ^ 32" by simp
  then show ?thesis by (simp add: unat_word_ariths unat_ucast_16_32)
qed

lemma buffer_fill_data_512:
  assumes "buffer_fill_data buf lba (ucast (n :: u16)) 512 w = w1"
  shows "io_token w1 = io_token w + ucast n"
    and "\<And>i. i < unat n \<Longrightarrow> load64 (mem w1) (buf + 512 * i) = lba + of_nat i"
    and "\<And>i. i < unat n \<Longrightarrow> load64 (mem w1) (buf + 512 * i + 504) = io_token w + of_nat i"
    and "\<And>i k. i < unat n \<Longrightarrow> 8 \<le> k \<Longrightarrow> k < 504 \<Longrightarrow>
           mem w1 (buf + 512 * i + k) = mem w (buf + 512 * i + k)"
    and "\<And>i. i < unat n \<Longrightarrow> csum_table w1 (unat (lba + of_nat i)) =
           buffer_calc_csum (spdk_crc32c w) (mem w1) (buf + 512 * i) 512"
    and "cmd_log_queue_table w1 = cmd_log_queue_table w"
    and "clock w1 = clock w" and "clock_reads w1 = clock_reads w"
    and "driver_calls w1 = driver_calls w" and "submit_rc w1 = submit_rc w"
proof -
  obtain h' t' where r: "buffer_fill_loop (spdk_crc32c w) buf (io_token w) (unat n) 512 0 lba
      (mem w, csum_table w) = (h', t')"
    by (cases "buffer_fill_loop (spdk_crc32c w) buf (io_token w) (unat n) 512 0 lba
      (mem w, csum_table w)") auto
  have w1: "w1 = w\<lparr>io_token := io_token w + ucast (ucast n :: u32), mem := h', csum_table := t'\<rparr>"
    using assms r by (simp add: buffer_fill_data_def atomic_fetch_add_io_token_def Let_def unat_ucast_16_32)
  have uc: "(ucast (ucast n :: u32) :: u64) = ucast n"
    by (rule bit_word_eqI) (auto simp: bit_simps dest: bit_imp_le_length)
  note P = fill_loop_512 [OF unat_u16_le r]
  show "io_token w1 = io_token w + ucast n" by (simp add: w1 uc)
  show "\<And>i. i < unat n \<Longrightarrow> load64 (mem w1) (buf + 512 * i) = lba + of_nat i"
    using P by (simp add: w1)
  show "\<And>i. i < unat n \<Longrightarrow> load64 (mem w1) (buf + 512 * i + 504) = io_token w + of_nat i"
    using P by (simp add: w1)
  show "\<And>i k. i < unat n \<Longrightarrow> 8 \<le> k \<Longrightarrow> k < 504 \<Longrightarrow>
           mem w1 (buf + 512 * i + k) = mem w (buf + 512 * i + k)"
    using P by (simp add: w1)
  show "\<And>i. i < unat n \<Longrightarrow> csum_table w1 (unat (lba + of_nat i)) =
           buffer_calc_csum (spdk_crc32c w) (mem w1) (buf + 512 * i) 512"
    using P by (simp add: w1)
  show "cmd_log_queue_table w1 = cmd_log_queue_table w" "clock w1 = clock w"
    "clock_reads w1 = clock_reads w" "driver_calls w1 = driver_calls w" "submit_rc w1 = submit_rc w"
    by (simp_all add: w1)
qed

lemma ns_cmd_write_unfold:
  assumes "ns_id n = 1" "buf \<noteq> 0" "sector_size n = 512" "unat lba_count * 512 \<le> len"
    and "unat (qpair_id q) < CMD_LOG_MAX_Q"
    and "cmd_log_queue_table w (unat (qpair_id q)) = Some lt"
    and "unat (tail_index lt) < CMD_LOG_DEPTH"
  shows "\<exists>c w2.
     ns_cmd_read_write 0 (Some n) (Some q) buf len lba lba_count io_flags cb cb_arg w =
       Inr (spdk_nvme_ctrlr_cmd_raw False c buf len (unat (qpair_id q), unat (tail_index lt)) w2)
     \<and> opc c = 1
     \<and> mem w2 = mem (buffer_fill_data buf lba (ucast lba_count) 512 w)
     \<and> csum_table w2 = csum_table (buffer_fill_data buf lba (ucast lba_count) 512 w)
     \<and> io_token w2 = io_token (buffer_fill_data buf lba (ucast lba_count) 512 w)
     \<and> driver_calls w2 = driver_calls w"
proof -
  define w1 where "w1 = buffer_fill_data buf lba (ucast lba_count) 512 w"
  define c where "c = cmd_zero\<lparr>opc := 1, nsid := ns_id n,
                           cdw10 := ucast lba, cdw11 := ucast (drop_bit 32 lba),
                           cdw12 := (ucast lba_count - 1) + push_bit 16 io_flags,
                           cdw13 := 0, cdw14 := 0, cdw15 := 0\<rparr>"
  have q1: "cmd_log_queue_table w1 (unat (qpair_id q)) = Some lt"
    using buffer_fill_data_512(6) [OF w1_def [symmetric]] assms(6) by simp
  from cmd_log_add_cmd_ok [OF assms(5) q1 assms(7), of buf lba lba_count 512 c cb cb_arg]
  obtain w2 where add: "cmd_log_add_cmd (qpair_id q) buf lba lba_count 512 c cb cb_arg w1 =
      Inr ((unat (qpair_id q), unat (tail_index lt)), w2)"
    and w2: "mem w2 = mem w1" "csum_table w2 = csum_table w1" "io_token w2 = io_token w1"
      "driver_calls w2 = driver_calls w1"
    by simp
  have run: "ns_cmd_read_write 0 (Some n) (Some q) buf len lba lba_count io_flags cb cb_arg w =
       Inr (spdk_nvme_ctrlr_cmd_raw False c buf len (unat (qpair_id q), unat (tail_index lt)) w2)"
    using assms(1-4) add
    by (simp add: ns_cmd_read_write_def Let_def unat_u16_times_512 c_def
        w1_def [symmetric])
  show ?thesis
    apply (rule exI [of _ c], rule exI [of _ w2])
    using run w2 buffer_fill_data_512(9) [OF w1_def [symmetric]]
    by (simp add: w1_def c_def)
qed

text \<open>
  Claim C2, as the code has it. A write of \<open>lba_count\<close> blocks from LBA \<open>L\<close> through
  \<open>ns_cmd_read_write\<close> with \<open>is_read = false\<close>, with \<open>T\<close> the value of the token counter
  before the call: in the memory and checksum table that the external driver is handed
  at the submission, block \<open>i\<close> starts with the 64-bit value \<open>L + i\<close> (the block's own
  LBA, not the starting LBA of the command), ends with \<open>T + i\<close>, keeps its bytes 8 to
  503, and the slot of LBA \<open>L + i\<close> is the clamped checksum of the whole block.
\<close>

theorem write_payload_before_submit:
  assumes "ns_id n = 1" "buf \<noteq> 0" "sector_size n = 512" "unat lba_count * 512 \<le> len"
    and "unat (qpair_id q) < CMD_LOG_MAX_Q"
    and "cmd_log_queue_table w (unat (qpair_id q)) = Some lt"
    and "unat (tail_index lt) < CMD_LOG_DEPTH"
  shows "\<exists>rc w' call.
     ns_cmd_read_write 0 (Some n) (Some q) buf len lba lba_count io_flags cb cb_arg w = Inr (rc, w')
     \<and> driver_calls w' = driver_calls w @ [call]
     \<and> opc (call_cmd call) = 1 \<and> call_buf call = buf
     \<and> (\<forall>i < unat lba_count.
          load64 (call_mem call) (buf + 512 * i) = lba + of_nat i
        \<and> load64 (call_mem call) (buf + 512 * i + 504) = io_token w + of_nat i
        \<and> (\<forall>k. 8 \<le> k \<and> k < 504 \<longrightarrow>
              call_mem call (buf + 512 * i + k) = mem w (buf + 512 * i + k))
        \<and> call_csum_table call (unat (lba + of_nat i)) =
              buffer_calc_csum (spdk_crc32c w) (call_mem call) (buf + 512 * i) 512)"
proof -
  define w1 where "w1 = buffer_fill_data buf lba (ucast lba_count) 512 w"
  note F = buffer_fill_data_512 [OF w1_def [symmetric]]
  from ns_cmd_write_unfold [OF assms, of lba io_flags cb cb_arg]
  obtain c w2 where r:
    "ns_cmd_read_write 0 (Some n) (Some q) buf len lba lba_count io_flags cb cb_arg w =
       Inr (spdk_nvme_ctrlr_cmd_raw False c buf len (unat (qpair_id q), unat (tail_index lt)) w2)"
    "opc c = 1" "mem w2 = mem w1" "csum_table w2 = csum_table w1" "driver_calls w2 = driver_calls w"
    unfolding w1_def by blast
  define call where "call = \<lparr>call_admin = False, call_cmd = c, call_buf = buf, call_len = len,
            call_ctx = (unat (qpair_id q), unat (tail_index lt)), call_mem = mem w2,
            call_csum_table = csum_table w2\<rparr>"
  define res where "res = spdk_nvme_ctrlr_cmd_raw False c buf len
      (unat (qpair_id q), unat (tail_index lt)) w2"
  have dc: "driver_calls (snd res) = driver_calls w @ [call]"
    by (simp add: res_def spdk_nvme_ctrlr_cmd_raw_def call_def r(5))
  have cm: "call_mem call = mem w1" "call_csum_table call = csum_table w1"
    "opc (call_cmd call) = 1" "call_buf call = buf"
    by (simp_all add: call_def r)
  have blocks: "\<forall>i < unat lba_count.
          load64 (call_mem call) (buf + 512 * i) = lba + of_nat i
        \<and> load64 (call_mem call) (buf + 512 * i + 504) = io_token w + of_nat i
        \<and> (\<forall>k. 8 \<le> k \<and> k < 504 \<longrightarrow>
              call_mem call (buf + 512 * i + k) = mem w (buf + 512 * i + k))
        \<and> call_csum_table call (unat (lba + of_nat i)) =
              buffer_calc_csum (spdk_crc32c w) (call_mem call) (buf + 512 * i) 512"
    unfolding cm using F(2,3,4,5) by simp
  show ?thesis
    apply (rule exI [of _ "fst res"], rule exI [of _ "snd res"], rule exI [of _ call])
    using r(1) dc cm(3,4) blocks by (simp add: res_def)
qed

theorem write_payload_before_submit_witness:
  "ns_id example_ns = 1 \<and> (4096 :: ptr) \<noteq> 0 \<and> sector_size example_ns = 512
   \<and> unat (2 :: u16) * 512 \<le> (1024 :: nat)
   \<and> unat (qpair_id \<lparr>qpair_id = 1\<rparr>) < CMD_LOG_MAX_Q
   \<and> cmd_log_queue_table example_world (unat (qpair_id \<lparr>qpair_id = 1\<rparr>)) = Some example_log_table
   \<and> unat (tail_index example_log_table) < CMD_LOG_DEPTH
   \<and> (\<exists>rc w' call.
        ns_cmd_read_write 0 (Some example_ns) (Some \<lparr>qpair_id = 1\<rparr>) 4096 1024 5 2 0 None 0
          example_world = Inr (rc, w')
        \<and> driver_calls w' = [call]
        \<and> load64 (call_mem call) 4608 = 6
        \<and> load64 (call_mem call) 5112 = 1)"
proof -
  have h: "ns_id example_ns = 1" "(4096 :: ptr) \<noteq> 0" "sector_size example_ns = 512"
    "unat (2 :: u16) * 512 \<le> (1024 :: nat)"
    "unat (qpair_id \<lparr>qpair_id = 1\<rparr>) < CMD_LOG_MAX_Q"
    "cmd_log_queue_table example_world (unat (qpair_id \<lparr>qpair_id = 1\<rparr>)) = Some example_log_table"
    "unat (tail_index example_log_table) < CMD_LOG_DEPTH"
    by (simp_all add: example_ns_def example_world_def example_log_table_def CMD_LOG_MAX_Q_def
        CMD_LOG_DEPTH_def)
  from write_payload_before_submit [OF h, of 5 0 None 0]
  obtain rc w' call where r:
    "ns_cmd_read_write 0 (Some example_ns) (Some \<lparr>qpair_id = 1\<rparr>) 4096 1024 5 2 0 None 0
          example_world = Inr (rc, w')"
    "driver_calls w' = driver_calls example_world @ [call]"
    "\<forall>i < unat (2 :: u16).
          load64 (call_mem call) (4096 + 512 * i) = 5 + of_nat i
        \<and> load64 (call_mem call) (4096 + 512 * i + 504) = io_token example_world + of_nat i"
    by blast
  have "(1 :: nat) < unat (2 :: u16)" by simp
  with r(3) have "load64 (call_mem call) (4096 + 512 * 1) = 5 + of_nat 1
        \<and> load64 (call_mem call) (4096 + 512 * 1 + 504) = io_token example_world + of_nat 1"
    by blast
  then have "load64 (call_mem call) 4608 = 6" "load64 (call_mem call) 5112 = 1"
    by (simp_all add: example_world_def)
  with r(1,2) h show ?thesis by (auto simp: example_world_def)
qed

text \<open>
  The claim as worded has every block start with the starting LBA of the command. For a
  two-block write at LBA 5 the second block starts with 6.
\<close>

theorem second_block_holds_its_own_lba:
  "\<not> isl (ns_cmd_read_write 0 (Some example_ns) (Some \<lparr>qpair_id = 1\<rparr>) 4096 1024 5 2 0 None 0
            example_world)
   \<and> load64 (mem (snd (projr (ns_cmd_read_write 0 (Some example_ns) (Some \<lparr>qpair_id = 1\<rparr>)
            4096 1024 5 2 0 None 0 example_world)))) (4096 + 512 * 1) = 6
   \<and> load64 (mem (snd (projr (ns_cmd_read_write 0 (Some example_ns) (Some \<lparr>qpair_id = 1\<rparr>)
            4096 1024 5 2 0 None 0 example_world)))) (4096 + 512 * 1) \<noteq> 5"
proof -
  have h: "ns_id example_ns = 1" "(4096 :: ptr) \<noteq> 0" "sector_size example_ns = 512"
    "unat (2 :: u16) * 512 \<le> (1024 :: nat)"
    "unat (qpair_id \<lparr>qpair_id = 1\<rparr>) < CMD_LOG_MAX_Q"
    "cmd_log_queue_table example_world (unat (qpair_id \<lparr>qpair_id = 1\<rparr>)) = Some example_log_table"
    "unat (tail_index example_log_table) < CMD_LOG_DEPTH"
    by (simp_all add: example_ns_def example_world_def example_log_table_def CMD_LOG_MAX_Q_def
        CMD_LOG_DEPTH_def)
  from ns_cmd_write_unfold [OF h, of 5 0 None 0]
  obtain c w2 where r:
    "ns_cmd_read_write 0 (Some example_ns) (Some \<lparr>qpair_id = 1\<rparr>) 4096 1024 5 2 0 None 0
       example_world =
       Inr (spdk_nvme_ctrlr_cmd_raw False c 4096 1024
          (unat (qpair_id \<lparr>qpair_id = 1\<rparr>), unat (tail_index example_log_table)) w2)"
    "mem w2 = mem (buffer_fill_data 4096 5 (ucast (2 :: u16)) 512 example_world)"
    by blast
  have "(1 :: nat) < unat (2 :: u16)" by simp
  then have "load64 (mem (buffer_fill_data 4096 5 (ucast (2 :: u16)) 512 example_world))
      (4096 + 512 * 1) = 5 + of_nat 1"
    by (rule buffer_fill_data_512(2) [OF refl])
  then have "load64 (mem w2) (4096 + 512 * 1) = 6" by (simp add: r(2))
  then show ?thesis by (simp add: r(1) spdk_nvme_ctrlr_cmd_raw_def)
qed

section \<open>Token order\<close>

lemma token_bases_length: "length (token_bases ns w) = length ns"
  by (induction ns arbitrary: w) (simp_all add: atomic_fetch_add_io_token_def)

lemma unat_ucast_32_64: "unat (ucast (x :: u32) :: u64) = unat x"
proof -
  have "unat x < 2 ^ 32" using unsigned_less [of x, where 'a=nat] by simp
  then have "unat x < 2 ^ 64" by (rule less_trans) simp
  then show ?thesis by (simp add: unsigned_ucast_eq take_bit_nat_eq_self)
qed

lemma token_bases_nth:
  "unat (io_token w) + sum_list (map unat ns) < 2 ^ 64 \<Longrightarrow> k < length ns \<Longrightarrow>
   unat (token_bases ns w ! k) = unat (io_token w) + sum_list (map unat (take k ns))"
proof (induction ns arbitrary: w k)
  case Nil
  then show ?case by simp
next
  case (Cons n ns)
  show ?case
  proof (cases k)
    case 0
    then show ?thesis by (simp add: atomic_fetch_add_io_token_def)
  next
    case (Suc k')
    define w1 where "w1 = w\<lparr>io_token := io_token w + ucast n\<rparr>"
    have nw: "unat (io_token w) + unat n < 2 ^ 64" using Cons(2) by simp
    then have t1: "unat (io_token w1) = unat (io_token w) + unat n"
      by (simp add: w1_def unat_word_ariths unat_ucast_32_64)
    have "unat (io_token w1) + sum_list (map unat ns) < 2 ^ 64" using Cons(2) t1 by simp
    moreover have "k' < length ns" using Cons(3) Suc by simp
    ultimately have "unat (token_bases ns w1 ! k') =
        unat (io_token w1) + sum_list (map unat (take k' ns))"
      by (rule Cons(1))
    then show ?thesis
      by (simp add: Suc atomic_fetch_add_io_token_def w1_def [symmetric] t1)
  qed
qed

lemma sum_take_mono:
  "j < k \<Longrightarrow> k \<le> length (xs :: nat list) \<Longrightarrow>
   sum_list (take j xs) + xs ! j \<le> sum_list (take k xs)"
proof (induction xs arbitrary: j k)
  case Nil
  then show ?case by simp
next
  case (Cons x xs)
  then obtain k' where k: "k = Suc k'" by (cases k) auto
  show ?case
  proof (cases j)
    case 0
    then show ?thesis by (simp add: k)
  next
    case (Suc j')
    with Cons(2,3) k have "j' < k'" "k' \<le> length xs" by simp_all
    then have "sum_list (take j' xs) + xs ! j' \<le> sum_list (take k' xs)" by (rule Cons(1))
    then show ?thesis by (simp add: Suc k)
  qed
qed

lemma sum_take_le: "sum_list (take k (xs :: nat list)) \<le> sum_list xs"
proof -
  have "sum_list xs = sum_list (take k xs) + sum_list (drop k xs)"
    by (metis append_take_drop_id sum_list_append)
  then show ?thesis by simp
qed

lemma fill_loop_heap_only:
  "buffer_fill_data buf lba n sz w = w1 \<Longrightarrow> io_token w1 = io_token w + ucast n"
  by (auto simp: buffer_fill_data_def atomic_fetch_add_io_token_def Let_def split: prod.splits)

text \<open>
  Claim C7, as the code has it. Every write reserves its tokens by one fetch-add of its
  block count. As long as the 64-bit counter has not wrapped (its value plus all the
  counts reserved stays below \<open>2 ^ 64\<close>), for two writes whose fetch-adds are in this
  order every token of the first is below every token of the second, and the base of
  the second is at least the base of the first plus its block count.
\<close>

theorem tokens_increase_until_wrap:
  assumes "unat (io_token w) + sum_list (map unat ns) < 2 ^ 64"
    and "j < k" and "k < length ns"
    and "i < unat (ns ! j)" and "i' < unat (ns ! k)"
  shows "token_bases ns w ! j + of_nat i < token_bases ns w ! k + of_nat i'
     \<and> unat (token_bases ns w ! j) + unat (ns ! j) \<le> unat (token_bases ns w ! k)
     \<and> io_token (buffer_fill_data buf lba n sz w) = io_token w + ucast n
     \<and> fst (atomic_fetch_add_io_token (ucast n) w) = io_token w"
proof -
  let ?xs = "map unat ns"
  have jl: "j < length ns" using assms(2,3) by simp
  have bj: "unat (token_bases ns w ! j) = unat (io_token w) + sum_list (take j ?xs)"
    using token_bases_nth [OF assms(1) jl] by (simp add: take_map)
  have bk: "unat (token_bases ns w ! k) = unat (io_token w) + sum_list (take k ?xs)"
    using token_bases_nth [OF assms(1,3)] by (simp add: take_map)
  have m: "sum_list (take j ?xs) + unat (ns ! j) \<le> sum_list (take k ?xs)"
    using sum_take_mono [of j k ?xs] assms(2,3) jl by simp
  have k1: "Suc k \<le> length ?xs" using assms(3) by simp
  have "sum_list (take k ?xs) + unat (ns ! k) \<le> sum_list (take (Suc k) ?xs)"
    using sum_take_mono [of k "Suc k" ?xs] assms(3) by simp
  also have "\<dots> \<le> sum_list ?xs" by (rule sum_take_le)
  finally have top: "unat (token_bases ns w ! k) + unat (ns ! k) < 2 ^ 64"
    using assms(1) bk by simp
  have ord: "unat (token_bases ns w ! j) + unat (ns ! j) \<le> unat (token_bases ns w ! k)"
    using bj bk m by simp
  have i64: "i < 2 ^ 64" "i' < 2 ^ 64" using assms(4,5) top ord by simp_all
  have uj: "unat (token_bases ns w ! j + of_nat i) = unat (token_bases ns w ! j) + i"
    using assms(4) ord top i64 by (simp add: unat_word_ariths unat_of_nat)
  have uk: "unat (token_bases ns w ! k + of_nat i') = unat (token_bases ns w ! k) + i'"
    using assms(5) top i64 by (simp add: unat_word_ariths unat_of_nat)
  have "token_bases ns w ! j + of_nat i < token_bases ns w ! k + of_nat i'"
    using assms(4) ord by (simp add: word_less_nat_alt uj uk)
  then show ?thesis
    using ord fill_loop_heap_only [OF refl, of buf lba n sz w]
    by (simp add: atomic_fetch_add_io_token_def)
qed

theorem tokens_increase_until_wrap_witness:
  "unat (io_token example_world) + sum_list (map unat [2, 3 :: u32]) < 2 ^ 64
   \<and> (0 :: nat) < 1 \<and> (1 :: nat) < length [2, 3 :: u32]
   \<and> (1 :: nat) < unat ([2, 3 :: u32] ! 0) \<and> (0 :: nat) < unat ([2, 3 :: u32] ! 1)
   \<and> token_bases [2, 3] example_world ! 0 + of_nat 1 < token_bases [2, 3] example_world ! 1 + of_nat 0
   \<and> unat (token_bases [2, 3] example_world ! 0) + unat ([2, 3 :: u32] ! 0)
        \<le> unat (token_bases [2, 3] example_world ! 1)"
proof -
  have h: "unat (io_token example_world) + sum_list (map unat [2, 3 :: u32]) < 2 ^ 64"
    "(0 :: nat) < 1" "(1 :: nat) < length [2, 3 :: u32]"
    "(1 :: nat) < unat ([2, 3 :: u32] ! 0)" "(0 :: nat) < unat ([2, 3 :: u32] ! 1)"
    by (simp_all add: example_world_def)
  show ?thesis
    using h tokens_increase_until_wrap [OF h, of 0 0 0 0] by blast
qed

text \<open>
  Without the bound the order fails: from a counter at \<open>2 ^ 64 - 1\<close> a one-block write
  stamps \<open>2 ^ 64 - 1\<close> and the next one stamps \<open>0\<close>.
\<close>

theorem token_wraps_at_2_64:
  "token_bases [1, 1] (example_world\<lparr>io_token := 0xffffffffffffffff\<rparr>) = [0xffffffffffffffff, 0]
   \<and> \<not> (token_bases [1, 1] (example_world\<lparr>io_token := 0xffffffffffffffff\<rparr>) ! 0 + 0
          < token_bases [1, 1] (example_world\<lparr>io_token := 0xffffffffffffffff\<rparr>) ! 1 + 0)"
  by (simp add: atomic_fetch_add_io_token_def example_world_def)

section \<open>Errors in the worker's completion handler\<close>

lemma update_rets_error: "error (snd (ioworker_update_rets x r now)) = error r"
  by (simp add: ioworker_update_rets_def Let_def)

lemma throttle_keeps:
  "rets (fst (ioworker_one_io_throttle g now w)) = rets g"
  "args (fst (ioworker_one_io_throttle g now w)) = args g"
  "flag_finish (fst (ioworker_one_io_throttle g now w)) = flag_finish g"
  by (simp_all add: ioworker_one_io_throttle_def Let_def)

lemma per_second_keeps:
  "error (rets (fst (ioworker_update_io_count_per_second g w))) = error (rets g)"
  "args (fst (ioworker_update_io_count_per_second g w)) = args g"
  "flag_finish (fst (ioworker_update_io_count_per_second g w)) = flag_finish g"
  by (simp_all add: ioworker_update_io_count_per_second_def Let_def)

lemma ioworker_send_one_lba_keeps:
  "ioworker_send_one_lba a g w = Inr (l, g1, w1) \<Longrightarrow>
     rets g1 = rets g \<and> flag_finish g1 = flag_finish g"
  by (auto simp: ioworker_send_one_lba_def Let_def split: if_splits sum.splits prod.splits)

lemma ioworker_send_one_rets:
  "ioworker_send_one x g w = Inr (ret, g1, w1) \<Longrightarrow> rets g1 = rets g"
  by (auto simp: ioworker_send_one_def Let_def dest!: ioworker_send_one_lba_keeps
      split: if_splits sum.splits prod.splits)

lemma account_keeps:
  "ioworker_one_cb_account x g w = (now, g2, w3) \<Longrightarrow>
     args g2 = args g \<and> error (rets g2) = error (rets g) \<and> flag_finish g2 = flag_finish g"
  by (auto simp: ioworker_one_cb_account_def Let_def gettimeofday_def ioworker_update_rets_def
      split: prod.splits if_splits)

lemma throttle_opt_keeps:
  "(if b then ioworker_one_io_throttle g now w else (g, w)) = (g3, w4) \<Longrightarrow>
     args g3 = args g \<and> rets g3 = rets g \<and> flag_finish g3 = flag_finish g"
  by (auto simp: ioworker_one_io_throttle_def Let_def split: if_splits)

lemma second_opt_keeps:
  "(if b then ioworker_update_io_count_per_second g w else (g, w)) = (g5, w5) \<Longrightarrow>
     args g5 = args g \<and> rets g5 = rets g \<and> flag_finish g5 = flag_finish g"
  by (auto simp: ioworker_update_io_count_per_second_def Let_def split: if_splits)

lemma next_rets:
  "ioworker_one_cb_next x g w = Inr (g', w') \<Longrightarrow> rets g' = rets g"
  by (auto simp: ioworker_one_cb_next_def dest!: ioworker_send_one_rets
      split: if_splits sum.splits prod.splits)

lemma next_finished:
  "flag_finish g \<Longrightarrow> ioworker_one_cb_next x g w = Inr (g, w)"
  by (simp add: ioworker_one_cb_next_def)

lemma one_cb_stages:
  obtains now g2 w3 g3 w4 g5 w5 where
    "ioworker_one_cb_account x g w = (now, g2, w3)"
    "(if tv_usec (io_delay_time g2) \<noteq> 0 then ioworker_one_io_throttle g2 now w3
      else (g2, w3)) = (g3, w4)"
    "(if io_counter_per_second (args (ioworker_one_cb_error c g3)) \<noteq> 0
         \<and> timercmp_gt now (time_next_sec (ioworker_one_cb_error c g3))
      then ioworker_update_io_count_per_second (ioworker_one_cb_error c g3) w4
      else (ioworker_one_cb_error c g3, w4)) = (g5, w5)"
    "ioworker_one_cb x c g w = ioworker_one_cb_next x g5 w5"
proof -
  obtain now g2 w3 where a: "ioworker_one_cb_account x g w = (now, g2, w3)"
    by (cases "ioworker_one_cb_account x g w") auto
  obtain g3 w4 where b: "(if tv_usec (io_delay_time g2) \<noteq> 0 then ioworker_one_io_throttle g2 now w3
      else (g2, w3)) = (g3, w4)"
    by (cases "(if tv_usec (io_delay_time g2) \<noteq> 0 then ioworker_one_io_throttle g2 now w3
      else (g2, w3))") auto
  obtain g5 w5 where d: "(if io_counter_per_second (args (ioworker_one_cb_error c g3)) \<noteq> 0
         \<and> timercmp_gt now (time_next_sec (ioworker_one_cb_error c g3))
      then ioworker_update_io_count_per_second (ioworker_one_cb_error c g3) w4
      else (ioworker_one_cb_error c g3, w4)) = (g5, w5)"
    by (cases "(if io_counter_per_second (args (ioworker_one_cb_error c g3)) \<noteq> 0
         \<and> timercmp_gt now (time_next_sec (ioworker_one_cb_error c g3))
      then ioworker_update_io_count_per_second (ioworker_one_cb_error c g3) w4
      else (ioworker_one_cb_error c g3, w4))") auto
  have "ioworker_one_cb x c g w = ioworker_one_cb_next x g5 w5"
    unfolding ioworker_one_cb_def Let_def a b d prod.case ..
  with a b d show ?thesis by (rule that)
qed

lemma one_cb_error_ignored:
  "spdk_nvme_cpl_is_error c \<Longrightarrow>
   (ucast (drop_bit 1 (status_raw (status c)) AND 0x7ff) :: u16) = 0x0281 \<Longrightarrow>
   read_percentage (args g) < 100 \<Longrightarrow> ioworker_one_cb_error c g = g"
  by (simp add: ioworker_one_cb_error_def)

lemma one_cb_error_none: "\<not> spdk_nvme_cpl_is_error c \<Longrightarrow> ioworker_one_cb_error c g = g"
  by (simp add: ioworker_one_cb_error_def)

lemma one_cb_error_kept:
  "spdk_nvme_cpl_is_error c \<Longrightarrow>
   \<not> ((ucast (drop_bit 1 (status_raw (status c)) AND 0x7ff) :: u16) = 0x0281
       \<and> read_percentage (args g) < 100) \<Longrightarrow>
   ioworker_one_cb_error c g =
     g\<lparr>flag_finish := True,
       rets := (rets g)\<lparr>error := (if error (rets g) = 0
                   then ucast (drop_bit 1 (status_raw (status c)) AND 0x7ff)
                   else error (rets g))\<rparr>\<rparr>"
  by (auto simp: ioworker_one_cb_error_def Let_def)

text \<open>
  Claim C5. In \<open>ioworker_one_cb\<close>, for a completion that is an error, with the 11-bit
  code \<open>(status >> 1) & 0x7FF\<close>: when the code is \<open>0x0281\<close> and \<open>read_percentage\<close> is
  below 100 the error block changes nothing, the handler does exactly what it does for a
  completion without error, and \<open>rets.error\<close> is as before; in every other case the
  error block sets the finish flag and stores the code in \<open>rets.error\<close> if that is
  still \<open>0\<close>, and the handler returns with the flag set and that value of \<open>rets.error\<close>.
\<close>

theorem worker_completion_errors:
  "(spdk_nvme_cpl_is_error c
      \<and> (ucast (drop_bit 1 (status_raw (status c)) AND 0x7ff) :: u16) = 0x0281
      \<and> read_percentage (args g) < 100 \<longrightarrow>
        ioworker_one_cb_error c g = g
      \<and> (\<forall>c'. \<not> spdk_nvme_cpl_is_error c' \<longrightarrow>
            ioworker_one_cb x c g w = ioworker_one_cb x c' g w)
      \<and> (\<forall>g' w'. ioworker_one_cb x c g w = Inr (g', w') \<longrightarrow> error (rets g') = error (rets g)))
   \<and> (spdk_nvme_cpl_is_error c
      \<and> \<not> ((ucast (drop_bit 1 (status_raw (status c)) AND 0x7ff) :: u16) = 0x0281
           \<and> read_percentage (args g) < 100) \<longrightarrow>
        ioworker_one_cb_error c g =
          g\<lparr>flag_finish := True,
            rets := (rets g)\<lparr>error := (if error (rets g) = 0
                        then ucast (drop_bit 1 (status_raw (status c)) AND 0x7ff)
                        else error (rets g))\<rparr>\<rparr>
      \<and> (\<exists>g' w'. ioworker_one_cb x c g w = Inr (g', w') \<and> flag_finish g'
            \<and> error (rets g') = (if error (rets g) = 0
                        then ucast (drop_bit 1 (status_raw (status c)) AND 0x7ff)
                        else error (rets g))))"
proof (intro conjI impI)
  assume h: "spdk_nvme_cpl_is_error c
      \<and> (ucast (drop_bit 1 (status_raw (status c)) AND 0x7ff) :: u16) = 0x0281
      \<and> read_percentage (args g) < 100"
  show "ioworker_one_cb_error c g = g" using h by (simp add: one_cb_error_ignored)
  have ign: "ioworker_one_cb_error c g3 = g3" if "args g3 = args g" for g3
    using h that by (simp add: one_cb_error_ignored)
  show "\<forall>c'. \<not> spdk_nvme_cpl_is_error c' \<longrightarrow>
            ioworker_one_cb x c g w = ioworker_one_cb x c' g w"
  proof (intro allI impI)
    fix c' assume ok: "\<not> spdk_nvme_cpl_is_error c'"
    obtain now g2 w3 where a: "ioworker_one_cb_account x g w = (now, g2, w3)"
      by (cases "ioworker_one_cb_account x g w") auto
    obtain g3 w4 where b: "(if tv_usec (io_delay_time g2) \<noteq> 0
        then ioworker_one_io_throttle g2 now w3 else (g2, w3)) = (g3, w4)"
      by (cases "(if tv_usec (io_delay_time g2) \<noteq> 0
        then ioworker_one_io_throttle g2 now w3 else (g2, w3))") auto
    have "args g3 = args g" using account_keeps [OF a] throttle_opt_keeps [OF b] by simp
    then have "ioworker_one_cb_error c g3 = ioworker_one_cb_error c' g3"
      using ign ok by (simp add: one_cb_error_none)
    then show "ioworker_one_cb x c g w = ioworker_one_cb x c' g w"
      unfolding ioworker_one_cb_def Let_def a b prod.case by simp
  qed
  show "\<forall>g' w'. ioworker_one_cb x c g w = Inr (g', w') \<longrightarrow> error (rets g') = error (rets g)"
  proof (intro allI impI)
    fix g' w' assume r: "ioworker_one_cb x c g w = Inr (g', w')"
    obtain now g2 w3 g3 w4 g5 w5 where s:
      "ioworker_one_cb_account x g w = (now, g2, w3)"
      "(if tv_usec (io_delay_time g2) \<noteq> 0 then ioworker_one_io_throttle g2 now w3
        else (g2, w3)) = (g3, w4)"
      "(if io_counter_per_second (args (ioworker_one_cb_error c g3)) \<noteq> 0
         \<and> timercmp_gt now (time_next_sec (ioworker_one_cb_error c g3))
        then ioworker_update_io_count_per_second (ioworker_one_cb_error c g3) w4
        else (ioworker_one_cb_error c g3, w4)) = (g5, w5)"
      "ioworker_one_cb x c g w = ioworker_one_cb_next x g5 w5"
      by (rule one_cb_stages)
    have a3: "args g3 = args g" "error (rets g3) = error (rets g)"
      using account_keeps [OF s(1)] throttle_opt_keeps [OF s(2)] by simp_all
    have "rets g5 = rets g3" using second_opt_keeps [OF s(3)] ign [OF a3(1)] by simp
    moreover have "rets g' = rets g5" using r s(4) next_rets by simp
    ultimately show "error (rets g') = error (rets g)" using a3(2) by simp
  qed
next
  assume h: "spdk_nvme_cpl_is_error c
      \<and> \<not> ((ucast (drop_bit 1 (status_raw (status c)) AND 0x7ff) :: u16) = 0x0281
           \<and> read_percentage (args g) < 100)"
  let ?E = "(ucast (drop_bit 1 (status_raw (status c)) AND 0x7ff) :: u16)"
  show "ioworker_one_cb_error c g =
          g\<lparr>flag_finish := True,
            rets := (rets g)\<lparr>error := (if error (rets g) = 0 then ?E else error (rets g))\<rparr>\<rparr>"
    using h by (intro one_cb_error_kept) simp_all
  obtain now g2 w3 g3 w4 g5 w5 where s:
      "ioworker_one_cb_account x g w = (now, g2, w3)"
      "(if tv_usec (io_delay_time g2) \<noteq> 0 then ioworker_one_io_throttle g2 now w3
        else (g2, w3)) = (g3, w4)"
      "(if io_counter_per_second (args (ioworker_one_cb_error c g3)) \<noteq> 0
         \<and> timercmp_gt now (time_next_sec (ioworker_one_cb_error c g3))
        then ioworker_update_io_count_per_second (ioworker_one_cb_error c g3) w4
        else (ioworker_one_cb_error c g3, w4)) = (g5, w5)"
      "ioworker_one_cb x c g w = ioworker_one_cb_next x g5 w5"
    by (rule one_cb_stages)
  have a3: "args g3 = args g" "error (rets g3) = error (rets g)"
    using account_keeps [OF s(1)] throttle_opt_keeps [OF s(2)] by simp_all
  have e: "ioworker_one_cb_error c g3 =
     g3\<lparr>flag_finish := True,
       rets := (rets g3)\<lparr>error := (if error (rets g3) = 0 then ?E else error (rets g3))\<rparr>\<rparr>"
    using h a3(1) by (intro one_cb_error_kept) simp_all
  have g5: "flag_finish g5" "error (rets g5) = (if error (rets g) = 0 then ?E else error (rets g))"
    using second_opt_keeps [OF s(3)] a3(2) by (simp_all add: e)
  have "ioworker_one_cb x c g w = Inr (g5, w5)" using s(4) g5(1) by (simp add: next_finished)
  with g5 show "\<exists>g' w'. ioworker_one_cb x c g w = Inr (g', w') \<and> flag_finish g'
            \<and> error (rets g') = (if error (rets g) = 0 then ?E else error (rets g))"
    by blast
qed

theorem worker_completion_errors_witness:
  "spdk_nvme_cpl_is_error (example_cpl\<lparr>status := (status example_cpl)\<lparr>sct := 0x02, sc := 0x81\<rparr>\<rparr>)
   \<and> (ucast (drop_bit 1 (status_raw (status
         (example_cpl\<lparr>status := (status example_cpl)\<lparr>sct := 0x02, sc := 0x81\<rparr>\<rparr>))) AND 0x7ff) :: u16)
       = 0x0281
   \<and> read_percentage (args (example_gctx\<lparr>args := example_args\<lparr>read_percentage := 70\<rparr>\<rparr>)) < 100
   \<and> ioworker_one_cb_error (example_cpl\<lparr>status := (status example_cpl)\<lparr>sct := 0x02, sc := 0x81\<rparr>\<rparr>)
         (example_gctx\<lparr>args := example_args\<lparr>read_percentage := 70\<rparr>\<rparr>)
       = example_gctx\<lparr>args := example_args\<lparr>read_percentage := 70\<rparr>\<rparr>
   \<and> spdk_nvme_cpl_is_error (example_cpl\<lparr>status := (status example_cpl)\<lparr>sc := 0x04\<rparr>\<rparr>)
   \<and> (ucast (drop_bit 1 (status_raw (status
         (example_cpl\<lparr>status := (status example_cpl)\<lparr>sc := 0x04\<rparr>\<rparr>))) AND 0x7ff) :: u16) = 0x0004
   \<and> (\<exists>g' w'. ioworker_one_cb 0 (example_cpl\<lparr>status := (status example_cpl)\<lparr>sc := 0x04\<rparr>\<rparr>)
          example_gctx example_world = Inr (g', w') \<and> flag_finish g' \<and> error (rets g') = 0x0004)"
proof -
  let ?c1 = "example_cpl\<lparr>status := (status example_cpl)\<lparr>sct := 0x02, sc := 0x81\<rparr>\<rparr>"
  let ?g1 = "example_gctx\<lparr>args := example_args\<lparr>read_percentage := 70\<rparr>\<rparr>"
  let ?c2 = "example_cpl\<lparr>status := (status example_cpl)\<lparr>sc := 0x04\<rparr>\<rparr>"
  have h1: "spdk_nvme_cpl_is_error ?c1"
    "(ucast (drop_bit 1 (status_raw (status ?c1)) AND 0x7ff) :: u16) = 0x0281"
    "read_percentage (args ?g1) < 100"
    by (simp_all add: example_cpl_def example_args_def spdk_nvme_cpl_is_error_def status_raw_def)
  have h2: "spdk_nvme_cpl_is_error ?c2"
    "(ucast (drop_bit 1 (status_raw (status ?c2)) AND 0x7ff) :: u16) = 0x0004"
    by (simp_all add: example_cpl_def spdk_nvme_cpl_is_error_def status_raw_def)
  have e0: "error (rets example_gctx) = 0" by (simp add: example_gctx_def)
  from worker_completion_errors [of ?c1 ?g1 0 example_world] h1
  have a: "ioworker_one_cb_error ?c1 ?g1 = ?g1" by blast
  have ne: "\<not> ((ucast (drop_bit 1 (status_raw (status ?c2)) AND 0x7ff) :: u16) = 0x0281
       \<and> read_percentage (args example_gctx) < 100)"
    by (simp only: h2(2)) simp
  from worker_completion_errors [of ?c2 example_gctx 0 example_world] h2(1) ne
  have "\<exists>g' w'. ioworker_one_cb 0 ?c2 example_gctx example_world = Inr (g', w') \<and> flag_finish g'
            \<and> error (rets g') = (if error (rets example_gctx) = 0
                        then ucast (drop_bit 1 (status_raw (status ?c2)) AND 0x7ff)
                        else error (rets example_gctx))"
    by blast
  then have b: "\<exists>g' w'. ioworker_one_cb 0 ?c2 example_gctx example_world = Inr (g', w')
       \<and> flag_finish g' \<and> error (rets g') = 0x0004"
    by (simp only: e0 h2(2) if_True simp_thms)
  from h1 h2 a b show ?thesis by blast
qed

section \<open>A run of the worker\<close>

text \<open>Nothing after the setup assigns to a field of \<open>args\<close>, and the wait loop ends
  with \<open>0\<close> or \<open>-3\<close>.\<close>

lemma account_args:
  "ioworker_one_cb_account x g w = (now, g2, w3) \<Longrightarrow> args g2 = args g"
  using account_keeps by blast

lemma next_args:
  "ioworker_one_cb_next x g w = Inr (g', w') \<Longrightarrow> args g' = args g"
  by (auto simp: ioworker_one_cb_next_def dest!: ioworker_send_one_args
      split: if_splits sum.splits prod.splits)

lemma one_cb_error_args: "args (ioworker_one_cb_error c g) = args g"
  by (simp add: ioworker_one_cb_error_def Let_def)

lemma one_cb_args:
  assumes "ioworker_one_cb x c g w = Inr (g', w')"
  shows "args g' = args g"
proof -
  obtain now g2 w3 g3 w4 g5 w5 where s:
      "ioworker_one_cb_account x g w = (now, g2, w3)"
      "(if tv_usec (io_delay_time g2) \<noteq> 0 then ioworker_one_io_throttle g2 now w3
        else (g2, w3)) = (g3, w4)"
      "(if io_counter_per_second (args (ioworker_one_cb_error c g3)) \<noteq> 0
         \<and> timercmp_gt now (time_next_sec (ioworker_one_cb_error c g3))
        then ioworker_update_io_count_per_second (ioworker_one_cb_error c g3) w4
        else (ioworker_one_cb_error c g3, w4)) = (g5, w5)"
      "ioworker_one_cb x c g w = ioworker_one_cb_next x g5 w5"
    by (rule one_cb_stages)
  have "args g5 = args g"
    using account_keeps [OF s(1)] throttle_opt_keeps [OF s(2)] second_opt_keeps [OF s(3)]
    by (simp add: one_cb_error_args)
  moreover have "args g' = args g5" using assms s(4) next_args by simp
  ultimately show ?thesis by simp
qed

lemma process_completions_args:
  "process_completions ds g w = Inr (g', w') \<Longrightarrow> args g' = args g"
proof (induction ds arbitrary: g w)
  case Nil
  then show ?case by simp
next
  case (Cons d ds)
  from Cons(2) show ?case
    by (auto split: sum.splits option.splits prod.splits cb_fn.splits
        dest!: Cons(1) one_cb_args)
qed

lemma first_batch_args:
  "ioworker_first_batch ss i g w = Inr (g', w') \<Longrightarrow> args g' = args g"
proof (induction ss i g w rule: ioworker_first_batch.induct)
  case (1 ss i g w)
  show ?case
  proof (cases "i < unat (qdepth (args g))")
    case False
    with 1(2) show ?thesis by (simp add: ioworker_first_batch.simps)
  next
    case True
    define len where "len = unat (ucast (lba_size (args g)) * ss)"
    from 1(2) True obtain buf w1 ret g2 w2 where
      b: "buffer_init len w = Inr (buf, w1)"
      and s: "ioworker_send_one i (g\<lparr>io_ctx := (io_ctx g)
                 (i := (io_ctx g i)\<lparr>data_buf_len := len, data_buf := buf\<rparr>)\<rparr>) w1 = Inr (ret, g2, w2)"
      and r: "ioworker_first_batch ss (i + 1) g2 w2 = Inr (g', w')"
      by (subst (asm) ioworker_first_batch.simps)
        (auto simp: Let_def len_def split: sum.splits prod.splits)
    have "args g' = args g2"
      by (rule 1(1) [OF True len_def b refl refl s refl refl r])
    moreover have "args g2 = args g" using ioworker_send_one_args [OF s] by simp
    ultimately show ?thesis by simp
  qed
qed

lemma wait_result:
  "ioworker_wait fuel ts g w = Some (Inr (ret, g', w')) \<Longrightarrow>
     args g' = args g \<and> (ret = 0 \<or> ret = - 3)
     \<and> (ret = 0 \<longrightarrow> io_count_sent g' = io_count_cplt g' \<and> flag_finish g')
     \<and> (ret = - 3 \<longrightarrow> io_count_sent g' \<noteq> io_count_cplt g' \<or> \<not> flag_finish g')"
proof (induction fuel arbitrary: g w)
  case 0
  then show ?case by (auto split: if_splits)
next
  case (Suc fuel)
  show ?case
  proof (cases "io_count_sent g \<noteq> io_count_cplt g \<or> \<not> flag_finish g")
    case False
    with Suc(2) show ?thesis by auto
  next
    case True
    obtain d w1 where d: "ioworker_get_duration ts w = (d, w1)"
      by (cases "ioworker_get_duration ts w") auto
    show ?thesis
    proof (cases "unat d > unat (seconds (args g)) * 1000 + 10 * 1000")
      case wd: True
      with Suc(2) True d show ?thesis by auto
    next
      case nwd: False
      with Suc(2) True d obtain g1 w2 where
        p: "spdk_nvme_qpair_process_completions g w1 = Inr (g1, w2)"
        and r: "ioworker_wait fuel ts g1 w2 = Some (Inr (ret, g', w'))"
        by (auto split: sum.splits prod.splits)
      have "args g1 = args g"
        using p process_completions_args by (simp add: spdk_nvme_qpair_process_completions_def)
      with Suc(1) [OF r] show ?thesis by simp
    qed
  qed
qed

lemma entry_result:
  assumes "ioworker_entry fuel (Some n) qp a w = Some (Inr (ret, a', r', w'))"
  shows "ioworker_check_args a"
    and "ucast (lba_size a) * sector_size n > max_xfer_size n \<Longrightarrow>
           ret = - 2 \<and> a' = a \<and> w' = w
           \<and> r' = \<lparr>io_count_read = 0, io_count_write = 0, latency_max_us = 0, mseconds = 0,
                    error = 0x0002\<rparr>"
    and "\<not> ucast (lba_size a) * sector_size n > max_xfer_size n \<Longrightarrow>
           ioworker_revise_args (num_sectors n) a = Inr a' \<and> (ret = 0 \<or> ret = - 3)"
proof -
  show c: "ioworker_check_args a"
    using assms by (auto simp: ioworker_entry_def Let_def split: if_splits)
  show "ucast (lba_size a) * sector_size n > max_xfer_size n \<Longrightarrow>
           ret = - 2 \<and> a' = a \<and> w' = w
           \<and> r' = \<lparr>io_count_read = 0, io_count_write = 0, latency_max_us = 0, mseconds = 0,
                    error = 0x0002\<rparr>"
    using assms c by (simp add: ioworker_entry_def Let_def)
  show "ioworker_revise_args (num_sectors n) a = Inr a' \<and> (ret = 0 \<or> ret = - 3)"
    if x: "\<not> ucast (lba_size a) * sector_size n > max_xfer_size n"
  proof -
    obtain ts w1 where t: "gettimeofday w = (ts, w1)" by (cases "gettimeofday w") auto
    define r0 where "r0 = \<lparr>io_count_read = 0, io_count_write = 0, latency_max_us = 0,
                    mseconds = 0, error = 0 :: u16\<rparr>"
    from assms c x t obtain a1 g1 w2 g2 w3 where
      rv: "ioworker_revise_args (num_sectors n) a = Inr a1"
      and fb: "ioworker_first_batch (sector_size n) 0 (ioworker_gctx_init n qp a1 r0 ts) w1
                 = Inr (g1, w2)"
      and wt: "ioworker_wait fuel ts g1 w2 = Some (Inr (ret, g2, w3))"
      and a': "a' = args g2"
      by (auto simp: ioworker_entry_def Let_def r0_def
          split: if_splits sum.splits option.splits prod.splits)
    have "args g2 = args g1" "ret = 0 \<or> ret = - 3" using wait_result [OF wt] by simp_all
    moreover have "args g1 = a1"
      using first_batch_args [OF fb] by (simp add: ioworker_gctx_init_def Let_def)
    ultimately show ?thesis using rv a' by simp
  qed
qed

lemma revise_result:
  assumes "ioworker_revise_args nsze a = Inr a'"
  shows "a' = a\<lparr>io_count := io_count a', seconds := seconds a',
               region_start := region_start a', region_end := region_end a',
               lba_start := lba_start a', qdepth := qdepth a'\<rparr>"
    and "io_count a' = (if io_count a = 0 then - 1 else io_count a)"
    and "seconds a' = (if seconds a = 0 \<or> unat (seconds a) > 24 * 3600 then 24 * 3600
                       else seconds a)"
    and "region_start a' =
           (if region_start a mod ucast (lba_align a) \<noteq> 0
            then region_start a + ucast (lba_align a) - region_start a mod ucast (lba_align a)
            else region_start a)"
    and "region_end a' =
           ((if region_end a > nsze then nsze else region_end a) - ucast (lba_size a) - 1)
           - ((if region_end a > nsze then nsze else region_end a) - ucast (lba_size a) - 1)
               mod ucast (lba_align a)"
    and "lba_start a' = (if lba_start a < region_start a' then region_start a' else lba_start a)"
    and "qdepth a' = (if io_count a' < ucast (qdepth a) then ucast (io_count a') else qdepth a)"
    and "lba_align a \<noteq> 0"
proof -
  define a1 where "a1 = (if io_count a = 0 then a\<lparr>io_count := - 1\<rparr> else a)"
  define a2 where "a2 = (if seconds a1 = 0 \<or> unat (seconds a1) > 24 * 3600
                then a1\<lparr>seconds := 24 * 3600\<rparr> else a1)"
  define a3 where "a3 = (if region_end a2 > nsze then a2\<lparr>region_end := nsze\<rparr> else a2)"
  have al: "lba_align a3 = lba_align a" "lba_size a3 = lba_size a"
    "region_start a3 = region_start a" "lba_start a3 = lba_start a" "qdepth a3 = qdepth a"
    "io_count a3 = (if io_count a = 0 then - 1 else io_count a)"
    "seconds a3 = (if seconds a = 0 \<or> unat (seconds a) > 24 * 3600 then 24 * 3600
                       else seconds a)"
    "region_end a3 = (if region_end a > nsze then nsze else region_end a)"
    by (simp_all add: a1_def a2_def a3_def)
  have fr: "a3 = a\<lparr>io_count := io_count a3, seconds := seconds a3, region_end := region_end a3\<rparr>"
    by (simp add: a1_def a2_def a3_def)
  have dz: "ioworker_revise_args nsze a = Inl Div_by_zero" if "(ucast (lba_align a) :: u64) = 0"
    using that by (simp add: ioworker_revise_args_def Let_def ALIGN_UP_def)
  from assms dz have nz: "(ucast (lba_align a) :: u64) \<noteq> 0" by auto
  then show "lba_align a \<noteq> 0" by auto
  define rs where "rs = (if region_start a mod ucast (lba_align a) \<noteq> 0
            then region_start a + ucast (lba_align a) - region_start a mod ucast (lba_align a)
            else region_start a)"
  define re0 where "re0 = region_end a3 - ucast (lba_size a) - 1"
  define a6 where "a6 = a3\<lparr>region_start := rs, region_end := re0 - re0 mod ucast (lba_align a)\<rparr>"
  define a7 where "a7 = (if lba_start a6 < region_start a6
                                then a6\<lparr>lba_start := region_start a6\<rparr> else a6)"
  define a8 where "a8 = (if io_count a7 < ucast (qdepth a7)
                                then a7\<lparr>qdepth := ucast (io_count a7)\<rparr> else a7)"
  have "ioworker_revise_args nsze a = Inr a8"
    using nz
    by (simp add: ioworker_revise_args_def Let_def ALIGN_UP_def ALIGN_DOWN_def
        a1_def a2_def a3_def rs_def re0_def a6_def a7_def a8_def)
  with assms have e: "a' = a8" by simp
  show "a' = a\<lparr>io_count := io_count a', seconds := seconds a',
               region_start := region_start a', region_end := region_end a',
               lba_start := lba_start a', qdepth := qdepth a'\<rparr>"
    unfolding e
    by (rule ioworker_args.equality) (simp_all add: a8_def a7_def a6_def a3_def a2_def a1_def)
  show "io_count a' = (if io_count a = 0 then - 1 else io_count a)"
    unfolding e by (simp add: a8_def a7_def a6_def al)
  show "seconds a' = (if seconds a = 0 \<or> unat (seconds a) > 24 * 3600 then 24 * 3600
                       else seconds a)"
    unfolding e by (simp add: a8_def a7_def a6_def al)
  show rs': "region_start a' =
           (if region_start a mod ucast (lba_align a) \<noteq> 0
            then region_start a + ucast (lba_align a) - region_start a mod ucast (lba_align a)
            else region_start a)"
    unfolding e by (simp add: a8_def a7_def a6_def rs_def)
  show "region_end a' =
           ((if region_end a > nsze then nsze else region_end a) - ucast (lba_size a) - 1)
           - ((if region_end a > nsze then nsze else region_end a) - ucast (lba_size a) - 1)
               mod ucast (lba_align a)"
    unfolding e by (simp add: a8_def a7_def a6_def re0_def al)
  show "lba_start a' = (if lba_start a < region_start a' then region_start a' else lba_start a)"
    unfolding e by (simp add: a8_def a7_def a6_def al)
  show "qdepth a' = (if io_count a' < ucast (qdepth a) then ucast (io_count a') else qdepth a)"
    unfolding e by (simp add: a8_def a7_def a6_def al)
qed

text \<open>The one-I/O run, evaluated: the command goes to LBA 1, the handler counts one read, and
  the caller's arguments come back with \<open>seconds\<close> and \<open>region_end\<close> rewritten.\<close>

lemma verify_unmapped_1:
  "t (unat lba) = 0 \<Longrightarrow> buffer_verify_loop c h t buf (Suc 0) sz 0 lba = 0"
  by (subst buffer_verify_loop.simps, simp, subst buffer_verify_loop.simps, simp)

lemmas run_defs = ioworker_entry_def ioworker_check_args_def ioworker_revise_args_def
  ALIGN_UP_def ALIGN_DOWN_def ioworker_gctx_init_def gettimeofday_def timeradd_second_def
  timeradd_def timersub_def timercmp_gt_def buffer_init_def ioworker_send_one_def
  ioworker_send_one_is_read_def random_def ioworker_send_one_lba_def
  ioworker_send_one_lba_sequential_def ns_cmd_read_write_def cmd_log_add_cmd_def
  spdk_nvme_ctrlr_cmd_raw_def ioworker_get_duration_def c_div_def
  spdk_nvme_qpair_process_completions_def cmd_log_add_cpl_cb_def cmd_log_entry_complete_def
  buffer_verify_data_def ioworker_one_cb_def ioworker_one_cb_account_def
  ioworker_update_rets_def ioworker_one_cb_error_def spdk_nvme_cpl_is_error_def
  ioworker_one_cb_next_def ioworker_send_one_is_finish_def ioworker_release_def
  timeval_to_us_def US_PER_S_def CMD_LOG_DEPTH_def CMD_LOG_MAX_Q_def cmd_zero_def
  example_world_def example_args_def example_ns_def example_cpl_def example_entry_def
  example_log_table_def example_small_args_def example_poll_world_def

lemma example_small_run:
  "(case ioworker_entry 1 (Some example_ns) \<lparr>qpair_id = 1\<rparr> example_small_args
          example_poll_world of
      Some (Inr (ret, a, r, w)) \<Rightarrow>
        ret = 0 \<and> a = example_small_args\<lparr>seconds := 86400, region_end := 6\<rparr>
        \<and> r = \<lparr>io_count_read = 1, io_count_write = 0, latency_max_us = 3000000,
                mseconds = 6000, error = 0\<rparr>
        \<and> map (\<lambda>c. cdw10 (call_cmd c)) (driver_calls w) = [1]
    | _ \<Rightarrow> False)"
  apply (simp add: run_defs Let_def)
  apply (subst ioworker_first_batch.simps, simp add: run_defs Let_def verify_unmapped_1)+
  done

lemma example_small_run_ex:
  "\<exists>w'. ioworker_entry 1 (Some example_ns) \<lparr>qpair_id = 1\<rparr> example_small_args
          example_poll_world =
        Some (Inr (0, example_small_args\<lparr>seconds := 86400, region_end := 6\<rparr>,
               \<lparr>io_count_read = 1, io_count_write = 0, latency_max_us = 3000000,
                mseconds = 6000, error = 0\<rparr>, w'))"
  using example_small_run by (auto split: option.splits sum.splits)

section \<open>Return codes of the worker\<close>


























section \<open>The time budget\<close>

text \<open>The check of \<open>seconds\<close> at the head of \<open>ioworker_entry\<close> is
  \<open>assert(args->seconds < 24*3600ULL)\<close>: every value from 86400 on stops the program
  there, whatever the other arguments are.\<close>

lemma seconds_from_86400_asserted:
  "unat (seconds a) \<ge> 24 * 3600 \<Longrightarrow>
     ioworker_entry fuel (Some n) qp a w = Some (Inl Assert_failed)"
  by (simp add: ioworker_entry_def ioworker_check_args_def Let_def)

text \<open>The one-I/O run with a budget of 86399 seconds, evaluated.\<close>

lemma example_86399_run:
  "(case ioworker_entry 1 (Some example_ns) \<lparr>qpair_id = 1\<rparr>
          (example_small_args\<lparr>seconds := 86399\<rparr>) example_poll_world of
      Some (Inr (ret, a, r, w)) \<Rightarrow>
        ret = 0 \<and> a = example_small_args\<lparr>seconds := 86399, region_end := 6\<rparr>
        \<and> r = \<lparr>io_count_read = 1, io_count_write = 0, latency_max_us = 3000000,
                mseconds = 6000, error = 0\<rparr>
    | _ \<Rightarrow> False)"
  apply (simp add: run_defs Let_def cong: let_weak_cong)
  apply (subst ioworker_first_batch.simps,
      simp add: run_defs Let_def verify_unmapped_1 cong: let_weak_cong)+
  done

text \<open>
  Claim C8. \<open>ioworker_entry\<close> treats \<open>seconds = 0\<close> as unbounded and caps the run at
  86400 seconds: any value up to and including 86400 passes validation, and 0 or a value
  above 86400 is replaced by 86400. In the code a budget of exactly 86400 seconds does
  not pass: the one-I/O run that ends with \<open>0\<close> for 86399 seconds stops at the assertion
  for 86400, although the block that revises the arguments, which comes after the
  assertion, accepts 86400 and leaves it as it is.
\<close>

theorem seconds_86400_rejected:
  "ioworker_entry 1 (Some example_ns) \<lparr>qpair_id = 1\<rparr>
        (example_small_args\<lparr>seconds := 86400\<rparr>) example_poll_world
      = Some (Inl Assert_failed)
   \<and> ioworker_revise_args (num_sectors example_ns) (example_small_args\<lparr>seconds := 86400\<rparr>)
      = Inr (example_small_args\<lparr>seconds := 86400, region_end := 6\<rparr>)
   \<and> (\<exists>w'. ioworker_entry 1 (Some example_ns) \<lparr>qpair_id = 1\<rparr>
          (example_small_args\<lparr>seconds := 86399\<rparr>) example_poll_world =
        Some (Inr (0, example_small_args\<lparr>seconds := 86399, region_end := 6\<rparr>,
               \<lparr>io_count_read = 1, io_count_write = 0, latency_max_us = 3000000,
                mseconds = 6000, error = 0\<rparr>, w')))"
proof (intro conjI)
  show "ioworker_entry 1 (Some example_ns) \<lparr>qpair_id = 1\<rparr>
        (example_small_args\<lparr>seconds := 86400\<rparr>) example_poll_world
      = Some (Inl Assert_failed)"
    by (rule seconds_from_86400_asserted) simp
  show "ioworker_revise_args (num_sectors example_ns) (example_small_args\<lparr>seconds := 86400\<rparr>)
      = Inr (example_small_args\<lparr>seconds := 86400, region_end := 6\<rparr>)"
    by (simp add: run_defs Let_def)
  show "\<exists>w'. ioworker_entry 1 (Some example_ns) \<lparr>qpair_id = 1\<rparr>
          (example_small_args\<lparr>seconds := 86399\<rparr>) example_poll_world =
        Some (Inr (0, example_small_args\<lparr>seconds := 86399, region_end := 6\<rparr>,
               \<lparr>io_count_read = 1, io_count_write = 0, latency_max_us = 3000000,
                mseconds = 6000, error = 0\<rparr>, w'))"
    using example_86399_run by (auto split: option.splits sum.splits)
qed

section \<open>What a run does to the caller's arguments\<close>

text \<open>
  Claim C3, as the code has it. \<open>ioworker_entry\<close> does write to the caller's \<open>args\<close>:
  past the transfer-size check it normalises \<open>io_count\<close>, \<open>seconds\<close>, \<open>region_start\<close>,
  \<open>region_end\<close>, \<open>lba_start\<close> and \<open>qdepth\<close> in place (to the values below), and that is
  what the caller finds when the worker returns. No other field is ever changed, nothing
  is changed after this setup, and a run that returns \<open>-2\<close> leaves \<open>args\<close> as it was.
\<close>

theorem args_rewritten_by_setup_only:
  "ioworker_entry fuel (Some n) qp a w = Some (Inr (ret, a', r', w')) \<longrightarrow>
     a' = a\<lparr>io_count := io_count a', seconds := seconds a',
            region_start := region_start a', region_end := region_end a',
            lba_start := lba_start a', qdepth := qdepth a'\<rparr>
     \<and> (ret = - 2 \<longrightarrow> a' = a)
     \<and> (ret \<noteq> - 2 \<longrightarrow>
          ioworker_revise_args (num_sectors n) a = Inr a'
        \<and> io_count a' = (if io_count a = 0 then - 1 else io_count a)
        \<and> seconds a' = (if seconds a = 0 then 24 * 3600 else seconds a)
        \<and> region_start a' =
           (if region_start a mod ucast (lba_align a) \<noteq> 0
            then region_start a + ucast (lba_align a) - region_start a mod ucast (lba_align a)
            else region_start a)
        \<and> region_end a' =
           ((if region_end a > num_sectors n then num_sectors n else region_end a)
              - ucast (lba_size a) - 1)
           - ((if region_end a > num_sectors n then num_sectors n else region_end a)
              - ucast (lba_size a) - 1) mod ucast (lba_align a)
        \<and> lba_start a' = (if lba_start a < region_start a' then region_start a' else lba_start a)
        \<and> qdepth a' = (if io_count a' < ucast (qdepth a) then ucast (io_count a')
                        else qdepth a))"
proof
  assume r: "ioworker_entry fuel (Some n) qp a w = Some (Inr (ret, a', r', w'))"
  note E = entry_result [OF r]
  have sec: "unat (seconds a) < 24 * 3600" using E(1) by (simp add: ioworker_check_args_def)
  show "a' = a\<lparr>io_count := io_count a', seconds := seconds a',
            region_start := region_start a', region_end := region_end a',
            lba_start := lba_start a', qdepth := qdepth a'\<rparr>
     \<and> (ret = - 2 \<longrightarrow> a' = a)
     \<and> (ret \<noteq> - 2 \<longrightarrow>
          ioworker_revise_args (num_sectors n) a = Inr a'
        \<and> io_count a' = (if io_count a = 0 then - 1 else io_count a)
        \<and> seconds a' = (if seconds a = 0 then 24 * 3600 else seconds a)
        \<and> region_start a' =
           (if region_start a mod ucast (lba_align a) \<noteq> 0
            then region_start a + ucast (lba_align a) - region_start a mod ucast (lba_align a)
            else region_start a)
        \<and> region_end a' =
           ((if region_end a > num_sectors n then num_sectors n else region_end a)
              - ucast (lba_size a) - 1)
           - ((if region_end a > num_sectors n then num_sectors n else region_end a)
              - ucast (lba_size a) - 1) mod ucast (lba_align a)
        \<and> lba_start a' = (if lba_start a < region_start a' then region_start a' else lba_start a)
        \<and> qdepth a' = (if io_count a' < ucast (qdepth a) then ucast (io_count a')
                        else qdepth a))"
  proof (cases "ucast (lba_size a) * sector_size n > max_xfer_size n")
    case True
    from E(2) [OF True] show ?thesis by simp
  next
    case False
    from E(3) [OF False] have rv: "ioworker_revise_args (num_sectors n) a = Inr a'"
      and rt: "ret = 0 \<or> ret = - 3" by simp_all
    note R = revise_result [OF rv]
    have s: "seconds a' = (if seconds a = 0 then 24 * 3600 else seconds a)"
      using R(3) sec by simp
    from rt have "ret \<noteq> - 2" by auto
    with rv R(1,2,4,5,6,7) s show ?thesis by simp
  qed
qed

theorem args_rewritten_by_setup_only_witness:
  "\<exists>w'. ioworker_entry 1 (Some example_ns) \<lparr>qpair_id = 1\<rparr> example_small_args
          example_poll_world =
        Some (Inr (0, example_small_args\<lparr>seconds := 86400, region_end := 6\<rparr>,
               \<lparr>io_count_read = 1, io_count_write = 0, latency_max_us = 3000000,
                mseconds = 6000, error = 0\<rparr>, w'))
      \<and> ioworker_revise_args (num_sectors example_ns) example_small_args
          = Inr (example_small_args\<lparr>seconds := 86400, region_end := 6\<rparr>)
      \<and> seconds (example_small_args\<lparr>seconds := 86400, region_end := 6\<rparr>)
          = (if seconds example_small_args = 0 then 24 * 3600 else seconds example_small_args)"
proof -
  from example_small_run_ex obtain w' where r:
    "ioworker_entry 1 (Some example_ns) \<lparr>qpair_id = 1\<rparr> example_small_args
          example_poll_world =
        Some (Inr (0, example_small_args\<lparr>seconds := 86400, region_end := 6\<rparr>,
               \<lparr>io_count_read = 1, io_count_write = 0, latency_max_us = 3000000,
                mseconds = 6000, error = 0\<rparr>, w'))"
    by blast
  from args_rewritten_by_setup_only [of 1 example_ns "\<lparr>qpair_id = 1\<rparr>" example_small_args
      example_poll_world 0 "example_small_args\<lparr>seconds := 86400, region_end := 6\<rparr>"
      "\<lparr>io_count_read = 1, io_count_write = 0, latency_max_us = 3000000,
                mseconds = 6000, error = 0\<rparr>" w'] r
  have "ioworker_revise_args (num_sectors example_ns) example_small_args
          = Inr (example_small_args\<lparr>seconds := 86400, region_end := 6\<rparr>)
      \<and> seconds (example_small_args\<lparr>seconds := 86400, region_end := 6\<rparr>)
          = (if seconds example_small_args = 0 then 24 * 3600 else seconds example_small_args)"
    by simp
  with r show ?thesis by blast
qed

text \<open>The claim has every field unchanged at return. In the one-I/O run \<open>seconds\<close>
  comes back as 86400 instead of 0 and \<open>region_end\<close> as 6 instead of 8.\<close>

theorem args_changed_by_run:
  "fst (snd (projr (the (ioworker_entry 1 (Some example_ns) \<lparr>qpair_id = 1\<rparr> example_small_args
          example_poll_world))))
     = example_small_args\<lparr>seconds := 86400, region_end := 6\<rparr>
   \<and> seconds (fst (snd (projr (the (ioworker_entry 1 (Some example_ns) \<lparr>qpair_id = 1\<rparr>
          example_small_args example_poll_world))))) \<noteq> seconds example_small_args
   \<and> region_end (fst (snd (projr (the (ioworker_entry 1 (Some example_ns) \<lparr>qpair_id = 1\<rparr>
          example_small_args example_poll_world))))) \<noteq> region_end example_small_args"
proof -
  from example_small_run_ex obtain w' where r:
    "ioworker_entry 1 (Some example_ns) \<lparr>qpair_id = 1\<rparr> example_small_args
          example_poll_world =
        Some (Inr (0, example_small_args\<lparr>seconds := 86400, region_end := 6\<rparr>,
               \<lparr>io_count_read = 1, io_count_write = 0, latency_max_us = 3000000,
                mseconds = 6000, error = 0\<rparr>, w'))"
    by blast
  show ?thesis
    unfolding r by (simp add: example_small_args_def example_args_def)
qed

section \<open>Claim C4: the LBAs of a sequential run\<close>

text \<open>The rule of sequential mode as \<open>ioworker_send_one_lba\<close> computes it: the next LBA
  is the previous one plus \<open>lba_align\<close>, replaced by \<open>region_start\<close> when it is
  greater than \<open>region_end\<close>, then aligned down. The increment comes before the use.\<close>

lemma lba_align_ucast_nonzero: "(x :: u16) \<noteq> 0 \<Longrightarrow> (ucast x :: u64) \<noteq> 0"
proof
  assume a: "x \<noteq> 0" "(ucast x :: u64) = 0"
  have "unat x < 2 ^ 16" using unsigned_less [of x, where 'a=nat] by simp
  then have "unat x < 2 ^ 64" by (rule less_trans) simp
  then have "unat (ucast x :: u64) = unat x" by (simp add: unsigned_ucast_eq take_bit_nat_eq_self)
  with a(2) have "unat x = 0" by simp
  then have "x = 0" by (simp add: unat_eq_0)
  with a(1) show False by simp
qed

lemma send_one_lba_sequential_rule:
  "\<not> lba_random a \<Longrightarrow> lba_align a \<noteq> 0 \<Longrightarrow>
   ioworker_send_one_lba a g w =
     (let r = (if sequential_lba g + ucast (lba_align a) > region_end a then region_start a
               else sequential_lba g + ucast (lba_align a))
      in Inr (r - r mod ucast (lba_align a), g\<lparr>sequential_lba := r\<rparr>, w))"
  using lba_align_ucast_nonzero [of "lba_align a"]
  by (simp add: ioworker_send_one_lba_def ioworker_send_one_lba_sequential_def ALIGN_DOWN_def
      Let_def)

text \<open>The run of the example, evaluated.\<close>

lemma upt_20: "[0..<20] = [0, 1, 2, 3, 4, 5, 6, 7, 8, 9, 10, 11, 12, 13, 14, 15, 16, 17, 18, 19]"
  by (simp add: upt_rec)

lemma example_run:
  "(case ioworker_entry 1 (Some example_ns) \<lparr>qpair_id = 1\<rparr> example_args example_run_world of
      Some (Inr (ret, a, r, w)) \<Rightarrow>
        ret = 0 \<and> a = example_args\<lparr>region_end := 6\<rparr>
        \<and> r = \<lparr>io_count_read = 20, io_count_write = 0, latency_max_us = 41000000,
                mseconds = 82000, error = 0\<rparr>
        \<and> map call_lba (driver_calls w)
            = [1, 2, 3, 4, 5, 6, 0, 1, 2, 3, 4, 5, 6, 0, 1, 2, 3, 4, 5, 6]
    | _ \<Rightarrow> False)"
  apply (simp add: run_defs Let_def example_run_world_def cong: let_weak_cong)
  apply (subst ioworker_first_batch.simps,
      simp add: run_defs Let_def verify_unmapped_1 upt_20 example_run_world_def call_lba_def
        cong: let_weak_cong)+
  done

text \<open>Claim C4. In sequential mode the next LBA is the previous one plus \<open>lba_align\<close>,
  wrapping to \<open>region_start\<close> when it exceeds \<open>region_end\<close>; for the region [0,8) with
  \<open>lba_align = 1\<close>, \<open>lba_size = 1\<close> and \<open>io_count = 20\<close> the claim expects the LBAs
  0,1,2,3,4,5,6,7,0,1,... The run of \<open>ioworker_entry\<close> on these arguments returns 0 after 20
  reads, and the LBAs it has submitted are 1,2,3,4,5,6,0,1,...: the first command goes to
  \<open>lba_start + lba_align\<close>, since \<open>sequential_lba\<close> starts at \<open>lba_start\<close> and is
  incremented before its first use, and LBA 7 is never addressed, since \<open>region_end\<close> has
  been lowered to \<open>8 - lba_size - 1 = 6\<close> and the wrap happens above it.\<close>

theorem example_run_lbas:
  "\<exists>w'. ioworker_entry 1 (Some example_ns) \<lparr>qpair_id = 1\<rparr> example_args example_run_world =
          Some (Inr (0, example_args\<lparr>region_end := 6\<rparr>,
                 \<lparr>io_count_read = 20, io_count_write = 0, latency_max_us = 41000000,
                  mseconds = 82000, error = 0\<rparr>, w'))
        \<and> map call_lba (driver_calls w')
            = [1, 2, 3, 4, 5, 6, 0, 1, 2, 3, 4, 5, 6, 0, 1, 2, 3, 4, 5, 6]"
  using example_run by (auto split: option.splits sum.splits)

end
